theory Spec2Isabelle
  imports Main "HOL-Library.AList"
begin

section \<open>The Real-Debrid downloader (src/program/downloaders/realdebrid.py)\<close>

text \<open>
  The module is a Python class, \<^verbatim>\<open>RealDebridDownloader\<close>, whose methods talk to the
  Real-Debrid REST API through \<^verbatim>\<open>utils.request.get\<close> and \<^verbatim>\<open>post\<close>, match
  files with \<^verbatim>\<open>FileFinder.find_required_files\<close> and write the result onto a
  \<^verbatim>\<open>MediaItem\<close>. The embedding keeps the methods' names and their control flow.
  Every method is a function from a state to a result and a new state; a Python exception
  is the result \<open>Inl e\<close>, a returned value is \<open>Inr v\<close>.
\<close>

subsection \<open>Python values\<close>

text \<open>
  A file is a Python dict with string keys (\<^verbatim>\<open>filename\<close>, \<^verbatim>\<open>filesize\<close>,
  \<^verbatim>\<open>id\<close>, or \<^verbatim>\<open>path\<close>, \<^verbatim>\<open>bytes\<close>, \<^verbatim>\<open>selected\<close> in a torrent's info), kept
  as an association list in insertion order. Its values are JSON integers and strings.
\<close>

datatype val = I int | S string

type_synonym filedict = "(string \<times> val) list"

text \<open>A container of the availability reply: a dict from file id to file.\<close>

type_synonym container = "(string \<times> filedict) list"

text \<open>
  The availability reply binds every hash to a provider entry: a dict from hoster name
  to a list of containers, or a value that is not a dict (Real-Debrid sends an empty
  list for a hash it has not cached). \<open>NotDict\<close> stands for every value whose Python
  type is not \<^verbatim>\<open>dict\<close>.
\<close>

datatype provider = NotDict | Dict "(string \<times> container list) list"

type_synonym availability = "(string \<times> provider) list"

text \<open>An element of the torrent listing (a \<^verbatim>\<open>SimpleNamespace\<close> with \<^verbatim>\<open>hash\<close> and \<^verbatim>\<open>id\<close>).\<close>

record torrent =
  t_hash :: string
  t_id :: string

text \<open>
  The dict returned by \<^verbatim>\<open>get_torrent_info\<close>. The method returns \<^verbatim>\<open>{}\<close> when the call
  fails, so each of the three keys the module reads may be absent (\<open>None\<close>).
\<close>

record torrent_info =
  info_files :: "filedict list option"
  info_filename :: "string option"
  info_original_filename :: "string option"

definition empty_info :: torrent_info where
  "empty_info = \<lparr>info_files = None, info_filename = None, info_original_filename = None\<rparr>"

datatype py_error = KeyError | IndexError | TypeError | RequestException

text \<open>\<^verbatim>\<open>d[k]\<close> on a dict: KeyError when the key is absent.\<close>

definition getitem :: "filedict \<Rightarrow> string \<Rightarrow> py_error + val" where
  "getitem d k = (case map_of d k of None \<Rightarrow> Inl KeyError | Some v \<Rightarrow> Inr v)"

definition info_getitem :: "'a option \<Rightarrow> py_error + 'a" where
  "info_getitem field = (case field of None \<Rightarrow> Inl KeyError | Some v \<Rightarrow> Inr v)"

text \<open>Python truth values: \<^verbatim>\<open>0\<close>, \<^verbatim>\<open>''\<close>, \<^verbatim>\<open>None\<close> and \<^verbatim>\<open>[]\<close> are false.\<close>

fun truthy :: "val \<Rightarrow> bool" where
  "truthy (I n) = (n \<noteq> 0)"
| "truthy (S s) = (s \<noteq> [])"

text \<open>A request id is \<^verbatim>\<open>None\<close> or a string; it is false when \<^verbatim>\<open>None\<close> or empty.\<close>

fun truthy_id :: "string option \<Rightarrow> bool" where
  "truthy_id None = False"
| "truthy_id (Some i) = (i \<noteq> [])"

subsection \<open>Media items\<close>

datatype stream = Stream (infohash: string) (raw_title: string)

text \<open>
  \<^verbatim>\<open>program.media.item\<close> is not among the sources. The item carries the attributes this
  module reads and writes: \<^verbatim>\<open>type\<close>, \<^verbatim>\<open>log_string\<close>, \<^verbatim>\<open>streams\<close>, the blacklist,
  the three fields written by \<^verbatim>\<open>set\<close>, and the children \<^verbatim>\<open>seasons\<close> (of a show) and
  \<^verbatim>\<open>episodes\<close> (of a season).
\<close>

datatype media_item = MediaItem
  (item_type: string)
  (log_string: string)
  (item_streams: "stream list")
  (blacklisted_streams: "stream list")
  (folder: "string option")
  (alternative_folder: "string option")
  (file_name: "string option")
  (seasons: "media_item list")
  (episodes: "media_item list")

text \<open>
  Modelled from the spec: \<^verbatim>\<open>MediaItem.set(field, value)\<close>, the mutation point "used to
  write folder/file bindings" (section 6); the class is missing from the sources.
\<close>

fun item_set :: "string \<Rightarrow> string \<Rightarrow> media_item \<Rightarrow> media_item" where
  "item_set key v (MediaItem ty ls st bl fo af fi se ep) =
     (if key = ''folder'' then MediaItem ty ls st bl (Some v) af fi se ep
      else if key = ''alternative_folder'' then MediaItem ty ls st bl fo (Some v) fi se ep
      else if key = ''file'' then MediaItem ty ls st bl fo af (Some v) se ep
      else MediaItem ty ls st bl fo af fi se ep)"

text \<open>
  Modelled from the spec: \<^verbatim>\<open>MediaItem.is_stream_blacklisted\<close>, the "blacklist
  membership check" of section 6 (missing from the sources): the item holds a "blacklist
  of rejected Streams".
\<close>

definition is_stream_blacklisted :: "media_item \<Rightarrow> stream \<Rightarrow> bool" where
  "is_stream_blacklisted item st = (st \<in> set (blacklisted_streams item))"

text \<open>
  Modelled from the spec: \<^verbatim>\<open>MediaItem.blacklist_stream\<close>, the blacklist "update" of
  section 6 (missing from the sources): afterwards the stream "is present in the item's
  blacklist". The list of candidate streams is left as it is.
\<close>

fun blacklist_stream :: "media_item \<Rightarrow> stream \<Rightarrow> media_item" where
  "blacklist_stream (MediaItem ty ls st bl fo af fi se ep) x =
     MediaItem ty ls st (bl @ [x]) fo af fi se ep"

text \<open>
  The children of an item are objects that \<^verbatim>\<open>set_active_files\<close> changes in place; here
  the changed children are put back into their parent.
\<close>

fun set_seasons :: "media_item list \<Rightarrow> media_item \<Rightarrow> media_item" where
  "set_seasons se' (MediaItem ty ls st bl fo af fi se ep) = MediaItem ty ls st bl fo af fi se' ep"

fun set_episodes :: "media_item list \<Rightarrow> media_item \<Rightarrow> media_item" where
  "set_episodes ep' (MediaItem ty ls st bl fo af fi se ep) = MediaItem ty ls st bl fo af fi se ep'"

subsection \<open>State, effects and the transport\<close>

datatype level = DEBUG | DEBRID | ERROR

text \<open>
  What the module does to the outside is recorded in order: each call of
  \<^verbatim>\<open>get\<close>/\<^verbatim>\<open>post\<close> with the endpoint and its arguments, each logger call (level and the
  constant part of the message), each \<^verbatim>\<open>time.sleep\<close>, and each call of the File Matcher
  with its arguments.
\<close>

datatype event =
    Post_addMagnet string
  | Get_instantAvailability "string list"
  | Get_info string
  | Post_selectFiles "string option" "val list"
  | Get_torrents nat
  | Log level string
  | Sleep nat
  | Find_required_files media_item "filedict list"

text \<open>
  \<^verbatim>\<open>utils.request\<close> is not among the sources. A call either raises or returns a response
  with \<^verbatim>\<open>is_ok\<close> and \<^verbatim>\<open>data\<close>.
\<close>

datatype 'd reply = Raises | Response bool 'd

text \<open>
  The environment of the downloader: the remote endpoint behind each URL, as a function
  of a world state \<open>'w\<close> that the call may change; the bound method
  \<^verbatim>\<open>self.finder.find_required_files\<close> (\<^verbatim>\<open>FileFinder\<close> is not among the sources); and
  \<^verbatim>\<open>Path(p).name\<close> of \<^verbatim>\<open>pathlib\<close>.
\<close>

record 'w env =
  post_addMagnet :: "string \<Rightarrow> 'w \<Rightarrow> string reply \<times> 'w"
  get_instantAvailability :: "string list \<Rightarrow> 'w \<Rightarrow> availability reply \<times> 'w"
  get_info :: "string \<Rightarrow> 'w \<Rightarrow> torrent_info reply \<times> 'w"
  post_selectFiles :: "string option \<Rightarrow> val list \<Rightarrow> 'w \<Rightarrow> unit reply \<times> 'w"
  get_torrents_list :: "nat \<Rightarrow> 'w \<Rightarrow> torrent list reply \<times> 'w"
  find_required_files :: "media_item \<Rightarrow> filedict list \<Rightarrow> filedict list"
  path_name :: "string \<Rightarrow> string"

record 'w state =
  world :: 'w
  trace :: "event list"
  active_stream :: "string option"

definition emit :: "event \<Rightarrow> 'w state \<Rightarrow> 'w state" where
  "emit e s = s\<lparr>trace := trace s @ [e]\<rparr>"

text \<open>One call of \<^verbatim>\<open>get\<close> or \<^verbatim>\<open>post\<close>: recorded, answered by the world, possibly raising.\<close>

definition request ::
  "event \<Rightarrow> ('w \<Rightarrow> 'd reply \<times> 'w) \<Rightarrow> 'w state \<Rightarrow> (py_error + bool \<times> 'd) \<times> 'w state" where
  "request ev endpoint s =
     (case endpoint (world s) of
        (Raises, w) \<Rightarrow> (Inl RequestException, emit ev (s\<lparr>world := w\<rparr>))
      | (Response is_ok d, w) \<Rightarrow> (Inr (is_ok, d), emit ev (s\<lparr>world := w\<rparr>)))"

definition finder_call ::
  "'w env \<Rightarrow> media_item \<Rightarrow> filedict list \<Rightarrow> 'w state \<Rightarrow> filedict list \<times> 'w state" where
  "finder_call env item fs s =
     (find_required_files env item fs, emit (Find_required_files item fs) s)"

subsection \<open>API methods\<close>

text \<open>
  Each method is a \<^verbatim>\<open>try\<close> block around the transport call with an
  \<^verbatim>\<open>except Exception\<close> clause that logs; the inner \<open>case\<close> is the body of the
  \<^verbatim>\<open>try\<close> (\<open>Inr (Some v)\<close> is a \<^verbatim>\<open>return v\<close> inside it, \<open>Inr None\<close> falls out of
  it), the outer \<open>case\<close> is the \<^verbatim>\<open>except\<close> clause and the statement after the block.
\<close>

definition add_magnet ::
  "'w env \<Rightarrow> string \<Rightarrow> 'w state \<Rightarrow> (py_error + string option) \<times> 'w state" where
  "add_magnet env hash s =
     (case (case request (Post_addMagnet hash) (post_addMagnet env hash) s of
              (Inl e, s1) \<Rightarrow> (Inl e, s1)
            | (Inr (is_ok, d), s1) \<Rightarrow>
                if is_ok then (Inr (Some (Some d)), s1)
                else (Inr None, emit (Log ERROR ''Failed to add magnet'') s1)) of
        (Inl e, s2) \<Rightarrow> (Inr None, emit (Log ERROR ''Failed to add magnet'') s2)
      | (Inr (Some v), s2) \<Rightarrow> (Inr v, s2)
      | (Inr None, s2) \<Rightarrow> (Inr None, s2))"

definition get_instant_availability ::
  "'w env \<Rightarrow> string list \<Rightarrow> 'w state \<Rightarrow> (py_error + availability) \<times> 'w state" where
  "get_instant_availability env hashes s =
     (if hashes = [] then (Inr [], emit (Log ERROR ''No hashes found'') s)
      else
        (case (case request (Get_instantAvailability hashes)
                      (get_instantAvailability env hashes) s of
                 (Inl e, s1) \<Rightarrow> (Inl e, s1)
               | (Inr (is_ok, d), s1) \<Rightarrow>
                   if is_ok then (Inr (Some d), s1) else (Inr None, s1)) of
           (Inl e, s2) \<Rightarrow>
             (Inr [], emit (Log ERROR ''Error getting instant availability'') s2)
         | (Inr (Some v), s2) \<Rightarrow> (Inr v, s2)
         | (Inr None, s2) \<Rightarrow> (Inr [], s2)))"

definition get_torrent_info ::
  "'w env \<Rightarrow> string option \<Rightarrow> 'w state \<Rightarrow> (py_error + torrent_info) \<times> 'w state" where
  "get_torrent_info env request_id s =
     (if \<not> truthy_id request_id then (Inr empty_info, emit (Log ERROR ''No request ID found'') s)
      else
        (case (case request (Get_info (the request_id))
                      (get_info env (the request_id)) s of
                 (Inl e, s1) \<Rightarrow> (Inl e, s1)
               | (Inr (is_ok, d), s1) \<Rightarrow>
                   if is_ok then (Inr (Some d), s1) else (Inr None, s1)) of
           (Inl e, s2) \<Rightarrow> (Inr empty_info, emit (Log ERROR ''Error getting torrent info'') s2)
         | (Inr (Some v), s2) \<Rightarrow> (Inr v, s2)
         | (Inr None, s2) \<Rightarrow> (Inr empty_info, s2)))"

text \<open>\<^verbatim>\<open>[file["id"] for file in container]\<close>: the first missing key raises.\<close>

fun file_ids :: "filedict list \<Rightarrow> py_error + val list" where
  "file_ids [] = Inr []"
| "file_ids (f # fs) =
     (case getitem f ''id'' of
        Inl e \<Rightarrow> Inl e
      | Inr v \<Rightarrow> (case file_ids fs of Inl e \<Rightarrow> Inl e | Inr vs \<Rightarrow> Inr (v # vs)))"

text \<open>
  The request body \<^verbatim>\<open>",".join(str(file["id"]) for file in container)\<close> is evaluated
  inside the \<^verbatim>\<open>try\<close>, before \<^verbatim>\<open>post\<close> is called; the event keeps the ids themselves.
\<close>

definition select_files ::
  "'w env \<Rightarrow> string option \<Rightarrow> filedict list \<Rightarrow> 'w state \<Rightarrow> (py_error + bool) \<times> 'w state" where
  "select_files env request_id container s =
     (case (case file_ids container of
              Inl e \<Rightarrow> (Inl e, s)
            | Inr ids \<Rightarrow>
                (case request (Post_selectFiles request_id ids)
                        (post_selectFiles env request_id ids) s of
                   (Inl e, s1) \<Rightarrow> (Inl e, s1)
                 | (Inr (is_ok, d), s1) \<Rightarrow> (Inr is_ok, s1))) of
        (Inl e, s2) \<Rightarrow> (Inr False, emit (Log ERROR ''Error selecting files'') s2)
      | (Inr b, s2) \<Rightarrow> (Inr b, s2))"

text \<open>
  \<^verbatim>\<open>{torrent.hash: torrent for torrent in response.data}\<close>: the dict is built in listing
  order, and a later torrent replaces an earlier one with the same hash.
\<close>

definition torrents_dict :: "torrent list \<Rightarrow> (string \<times> torrent) list" where
  "torrents_dict ts = foldl (\<lambda>d t. AList.update (t_hash t) t d) [] ts"

definition get_torrents ::
  "'w env \<Rightarrow> nat \<Rightarrow> 'w state \<Rightarrow> (py_error + (string \<times> torrent) list) \<times> 'w state" where
  "get_torrents env limit s =
     (case (case request (Get_torrents limit) (get_torrents_list env limit) s of
              (Inl e, s1) \<Rightarrow> (Inl e, s1)
            | (Inr (is_ok, d), s1) \<Rightarrow>
                if is_ok \<and> d \<noteq> [] then (Inr (Some (torrents_dict d)), s1)
                else (Inr None, s1)) of
        (Inl e, s2) \<Rightarrow> (Inr [], emit (Log ERROR ''Error getting torrents from Real-Debrid'') s2)
      | (Inr (Some v), s2) \<Rightarrow> (Inr v, s2)
      | (Inr None, s2) \<Rightarrow> (Inr [], s2))"

subsection \<open>The Cache Resolver: \<^verbatim>\<open>is_cached\<close>\<close>

text \<open>
  \<^verbatim>\<open>[{**file, 'id': file_id} for file_id, file in container.items()]\<close>: every file
  of the container, with its key stored under \<^verbatim>\<open>id\<close>.
\<close>

definition tag_container :: "container \<Rightarrow> filedict list" where
  "tag_container container =
     map (\<lambda>(file_id, file). AList.update ''id'' (S file_id) file) container"

text \<open>
  \<^verbatim>\<open>for container in container_list\<close>: the result is \<open>Some files\<close> when the
  body reached \<^verbatim>\<open>return_dict[hash] = files\<close> (and then left the loop, by
  \<^verbatim>\<open>return\<close> or by \<^verbatim>\<open>break\<close>), \<open>None\<close> when the list was exhausted.
\<close>

fun is_cached_containers ::
  "'w env \<Rightarrow> media_item \<Rightarrow> container list \<Rightarrow> 'w state \<Rightarrow> filedict list option \<times> 'w state" where
  "is_cached_containers env item [] s = (None, s)"
| "is_cached_containers env item (container # rest) s =
     (case finder_call env item (tag_container container) s of
        (files, s1) \<Rightarrow>
          if files \<noteq> [] then (Some files, s1)
          else is_cached_containers env item rest s1)"

text \<open>
  \<^verbatim>\<open>for container_list in provider.values()\<close>. The \<^verbatim>\<open>break\<close> of the source leaves
  the loop over one container list only, so without \<^verbatim>\<open>break_on_first\<close> the next
  container list of the same hash is examined as well. The boolean of the result says
  that \<^verbatim>\<open>return return_dict\<close> was executed.
\<close>

fun is_cached_provider ::
  "'w env \<Rightarrow> media_item \<Rightarrow> bool \<Rightarrow> string \<Rightarrow> container list list \<Rightarrow>
   (string \<times> filedict list) list \<Rightarrow> 'w state \<Rightarrow>
   (bool \<times> (string \<times> filedict list) list) \<times> 'w state" where
  "is_cached_provider env item break_on_first hash [] return_dict s =
     ((False, return_dict), s)"
| "is_cached_provider env item break_on_first hash (container_list # rest) return_dict s =
     (case is_cached_containers env item container_list s of
        (Some files, s1) \<Rightarrow>
          if break_on_first then ((True, AList.update hash files return_dict), s1)
          else is_cached_provider env item break_on_first hash rest
                 (AList.update hash files return_dict) s1
      | (None, s1) \<Rightarrow>
          is_cached_provider env item break_on_first hash rest return_dict s1)"

text \<open>\<^verbatim>\<open>for hash, provider in cached_hashes.items()\<close>.\<close>

fun is_cached_hashes ::
  "'w env \<Rightarrow> media_item \<Rightarrow> bool \<Rightarrow> availability \<Rightarrow>
   (string \<times> filedict list) list \<Rightarrow> 'w state \<Rightarrow>
   (string \<times> filedict list) list \<times> 'w state" where
  "is_cached_hashes env item break_on_first [] return_dict s = (return_dict, s)"
| "is_cached_hashes env item break_on_first ((hash, provider) # rest) return_dict s =
     (case provider of
        NotDict \<Rightarrow> is_cached_hashes env item break_on_first rest return_dict s
      | Dict d \<Rightarrow>
          (case is_cached_provider env item break_on_first hash (map snd d) return_dict s of
             ((True, return_dict1), s1) \<Rightarrow> (return_dict1, s1)
           | ((False, return_dict1), s1) \<Rightarrow>
               is_cached_hashes env item break_on_first rest return_dict1 s1))"

definition is_cached ::
  "'w env \<Rightarrow> media_item \<Rightarrow> string list \<Rightarrow> bool \<Rightarrow> 'w state \<Rightarrow>
   (py_error + (string \<times> filedict list) list) \<times> 'w state" where
  "is_cached env item streams break_on_first s =
     (case get_instant_availability env streams s of
        (Inl e, s1) \<Rightarrow> (Inl e, s1)
      | (Inr cached_hashes, s1) \<Rightarrow>
          if cached_hashes \<noteq> [] then
            (case is_cached_hashes env item break_on_first cached_hashes [] s1 of
               (return_dict, s2) \<Rightarrow> (Inr return_dict, s2))
          else (Inr [], s1))"

definition get_cached_hashes ::
  "'w env \<Rightarrow> media_item \<Rightarrow> string list \<Rightarrow> 'w state \<Rightarrow>
   (py_error + (string \<times> filedict list) list) \<times> 'w state" where
  "get_cached_hashes env item streams s = is_cached env item streams False s"

subsection \<open>The Download Orchestrator\<close>

text \<open>\<^verbatim>\<open>Path(v)\<close> accepts a string and raises TypeError on an integer.\<close>

fun path_of :: "val \<Rightarrow> py_error + string" where
  "path_of (S p) = Inr p"
| "path_of (I n) = Inl TypeError"

text \<open>
  \<^verbatim>\<open>[{"filename": Path(file["path"]).name, "filesize": file["bytes"], 'id': file["id"]}
  for file in info["files"] if file["selected"]]\<close>: for each file the condition is
  evaluated first, then the three values from left to right.
\<close>

fun selected_files :: "'w env \<Rightarrow> filedict list \<Rightarrow> py_error + filedict list" where
  "selected_files env [] = Inr []"
| "selected_files env (file # rest) =
     (case getitem file ''selected'' of
        Inl e \<Rightarrow> Inl e
      | Inr sel \<Rightarrow>
          if truthy sel then
            (case getitem file ''path'' of
               Inl e \<Rightarrow> Inl e
             | Inr p \<Rightarrow>
                 (case path_of p of
                    Inl e \<Rightarrow> Inl e
                  | Inr p' \<Rightarrow>
                      (case getitem file ''bytes'' of
                         Inl e \<Rightarrow> Inl e
                       | Inr b \<Rightarrow>
                           (case getitem file ''id'' of
                              Inl e \<Rightarrow> Inl e
                            | Inr i \<Rightarrow>
                                (case selected_files env rest of
                                   Inl e \<Rightarrow> Inl e
                                 | Inr fs \<Rightarrow>
                                     Inr ([(''filename'', S (path_name env p')),
                                           (''filesize'', b), (''id'', i)] # fs))))))
          else selected_files env rest)"

definition torrent_is_downloaded ::
  "'w env \<Rightarrow> media_item \<Rightarrow> string \<Rightarrow> 'w state \<Rightarrow> (py_error + string option) \<times> 'w state" where
  "torrent_is_downloaded env item hash_key s =
     (case get_torrents env 1000
             (emit (Log DEBUG ''Checking if torrent is already downloaded for item'') s) of
        (Inl e, s1) \<Rightarrow> (Inl e, s1)
      | (Inr torrents, s1) \<Rightarrow>
          (case map_of torrents hash_key of
             None \<Rightarrow> (Inr None, emit (Log DEBUG ''No matching torrent found for hash'') s1)
           | Some torrent \<Rightarrow>
               (case get_torrent_info env (Some (t_id torrent)) s1 of
                  (Inl e, s2) \<Rightarrow> (Inl e, s2)
                | (Inr info, s2) \<Rightarrow>
                    (case info_getitem (info_files info) of
                       Inl e \<Rightarrow> (Inl e, s2)
                     | Inr info_fs \<Rightarrow>
                         if info_fs = [] then
                           (Inr None, emit (Log DEBUG ''Failed to get torrent info for ID'') s2)
                         else
                           (case selected_files env info_fs of
                              Inl e \<Rightarrow> (Inl e, s2)
                            | Inr files \<Rightarrow>
                                (case finder_call env item files s2 of
                                   (found, s3) \<Rightarrow>
                                     if found = [] then (Inr None, s3)
                                     else (Inr (Some (t_id torrent)), s3)))))))"

text \<open>
  The four statements that end every branch of \<^verbatim>\<open>set_active_files\<close>:
  \<^verbatim>\<open>_file_path = Path(file["filename"])\<close>, \<^verbatim>\<open>item.set("folder", info["filename"])\<close>,
  \<^verbatim>\<open>item.set("alternative_folder", info["original_filename"])\<close> and
  \<^verbatim>\<open>item.set("file", _file_path.name)\<close>. A field written before a later statement
  raises stays written.
\<close>

definition bind_file ::
  "'w env \<Rightarrow> torrent_info \<Rightarrow> filedict \<Rightarrow> media_item \<Rightarrow> (py_error + unit) \<times> media_item" where
  "bind_file env info file item =
     (case getitem file ''filename'' of
        Inl e \<Rightarrow> (Inl e, item)
      | Inr fn \<Rightarrow>
          (case path_of fn of
             Inl e \<Rightarrow> (Inl e, item)
           | Inr p \<Rightarrow>
               (case info_getitem (info_filename info) of
                  Inl e \<Rightarrow> (Inl e, item)
                | Inr fo \<Rightarrow>
                    (case info_getitem (info_original_filename info) of
                       Inl e \<Rightarrow> (Inl e, item_set ''folder'' fo item)
                     | Inr af \<Rightarrow>
                         (Inr (), item_set ''file'' (path_name env p)
                                    (item_set ''alternative_folder'' af
                                       (item_set ''folder'' fo item)))))))"

text \<open>
  The branch for \<^verbatim>\<open>"movie"\<close> and for \<^verbatim>\<open>"episode"\<close>:
  \<^verbatim>\<open>file = self.finder.find_required_files(item, container)[0]\<close>, then the binding.
\<close>

definition bind_first ::
  "'w env \<Rightarrow> torrent_info \<Rightarrow> filedict list \<Rightarrow> media_item \<Rightarrow> 'w state \<Rightarrow>
   (py_error + unit) \<times> media_item \<times> 'w state" where
  "bind_first env info container item s =
     (case finder_call env item container s of
        (found, s1) \<Rightarrow>
          (case found of
             [] \<Rightarrow> (Inl IndexError, item, s1)
           | file # _ \<Rightarrow>
               (case bind_file env info file item of (r, item1) \<Rightarrow> (r, item1, s1))))"

text \<open>
  The body of the loops over episodes:
  \<^verbatim>\<open>file = self.finder.find_required_files(episode, files)\<close>, and the binding of
  \<^verbatim>\<open>file[0]\<close> when \<^verbatim>\<open>file\<close> is not empty.
\<close>

definition bind_episode ::
  "'w env \<Rightarrow> torrent_info \<Rightarrow> filedict list \<Rightarrow> media_item \<Rightarrow> 'w state \<Rightarrow>
   (py_error + unit) \<times> media_item \<times> 'w state" where
  "bind_episode env info files episode s =
     (case finder_call env episode files s of
        (found, s1) \<Rightarrow>
          (case found of
             [] \<Rightarrow> (Inr (), episode, s1)
           | file # _ \<Rightarrow>
               (case bind_file env info file episode of (r, episode1) \<Rightarrow> (r, episode1, s1))))"

fun bind_episodes ::
  "'w env \<Rightarrow> torrent_info \<Rightarrow> filedict list \<Rightarrow> media_item list \<Rightarrow> 'w state \<Rightarrow>
   (py_error + unit) \<times> media_item list \<times> 'w state" where
  "bind_episodes env info files [] s = (Inr (), [], s)"
| "bind_episodes env info files (episode # rest) s =
     (case bind_episode env info files episode s of
        (Inl e, episode1, s1) \<Rightarrow> (Inl e, episode1 # rest, s1)
      | (Inr u, episode1, s1) \<Rightarrow>
          (case bind_episodes env info files rest s1 of
             (r, rest1, s2) \<Rightarrow> (r, episode1 # rest1, s2)))"

fun bind_seasons ::
  "'w env \<Rightarrow> torrent_info \<Rightarrow> filedict list \<Rightarrow> media_item list \<Rightarrow> 'w state \<Rightarrow>
   (py_error + unit) \<times> media_item list \<times> 'w state" where
  "bind_seasons env info files [] s = (Inr (), [], s)"
| "bind_seasons env info files (season # rest) s =
     (case bind_episodes env info files (episodes season) s of
        (Inl e, episodes1, s1) \<Rightarrow> (Inl e, set_episodes episodes1 season # rest, s1)
      | (Inr u, episodes1, s1) \<Rightarrow>
          (case bind_seasons env info files rest s1 of
             (r, rest1, s2) \<Rightarrow> (r, set_episodes episodes1 season # rest1, s2)))"

definition bind_show ::
  "'w env \<Rightarrow> torrent_info \<Rightarrow> filedict list \<Rightarrow> media_item \<Rightarrow> 'w state \<Rightarrow>
   (py_error + unit) \<times> media_item \<times> 'w state" where
  "bind_show env info container item s =
     (case finder_call env item container s of
        (files, s1) \<Rightarrow>
          (case bind_seasons env info files (seasons item) s1 of
             (r, seasons1, s2) \<Rightarrow> (r, set_seasons seasons1 item, s2)))"

definition bind_season ::
  "'w env \<Rightarrow> torrent_info \<Rightarrow> filedict list \<Rightarrow> media_item \<Rightarrow> 'w state \<Rightarrow>
   (py_error + unit) \<times> media_item \<times> 'w state" where
  "bind_season env info container item s =
     (case finder_call env item container s of
        (files, s1) \<Rightarrow>
          (case bind_episodes env info files (episodes item) s1 of
             (r, episodes1, s2) \<Rightarrow> (r, set_episodes episodes1 item, s2)))"

text \<open>One \<^verbatim>\<open>if item.type == ty:\<close> statement.\<close>

definition if_type ::
  "string \<Rightarrow> (media_item \<Rightarrow> 'w state \<Rightarrow> (py_error + unit) \<times> media_item \<times> 'w state) \<Rightarrow>
   media_item \<Rightarrow> 'w state \<Rightarrow> (py_error + unit) \<times> media_item \<times> 'w state" where
  "if_type ty body item s = (if item_type item = ty then body item s else (Inr (), item, s))"

text \<open>
  \<^verbatim>\<open>set_active_files(item, torrent_id, container)\<close>. The parameter \<^verbatim>\<open>container\<close> is a
  list here; the source's default \<^verbatim>\<open>None\<close> is false like the empty list, and that is
  the only way the method reads it before replacing it.
\<close>

definition set_active_files ::
  "'w env \<Rightarrow> media_item \<Rightarrow> string option \<Rightarrow> filedict list \<Rightarrow> 'w state \<Rightarrow>
   (py_error + unit) \<times> media_item \<times> 'w state" where
  "set_active_files env item torrent_id container s =
     (case get_torrent_info env torrent_id s of
        (Inl e, s1) \<Rightarrow> (Inl e, item, s1)
      | (Inr info, s1) \<Rightarrow>
          (case (if container = [] then
                   (case info_getitem (info_files info) of
                      Inl e \<Rightarrow> (Inl e, s1)
                    | Inr info_fs \<Rightarrow>
                        (case finder_call env item info_fs s1 of (c, s2) \<Rightarrow> (Inr c, s2)))
                 else (Inr container, s1)) of
             (Inl e, s2) \<Rightarrow> (Inl e, item, s2)
           | (Inr container1, s2) \<Rightarrow>
               if container1 \<noteq> [] then
                 (case if_type ''movie'' (bind_first env info container1) item s2 of
                    (Inl e, item1, s3) \<Rightarrow> (Inl e, item1, s3)
                  | (Inr u, item1, s3) \<Rightarrow>
                 (case if_type ''show'' (bind_show env info container1) item1 s3 of
                    (Inl e, item2, s4) \<Rightarrow> (Inl e, item2, s4)
                  | (Inr u, item2, s4) \<Rightarrow>
                 (case if_type ''season'' (bind_season env info container1) item2 s4 of
                    (Inl e, item3, s5) \<Rightarrow> (Inl e, item3, s5)
                  | (Inr u, item3, s5) \<Rightarrow>
                      if_type ''episode'' (bind_first env info container1) item3 s5)))
               else (Inr (), item, s2)))"

definition download ::
  "'w env \<Rightarrow> media_item \<Rightarrow> string \<Rightarrow> filedict list \<Rightarrow> 'w state \<Rightarrow>
   (py_error + unit) \<times> media_item \<times> 'w state" where
  "download env item stream container s =
     (case torrent_is_downloaded env item stream s of
        (Inl e, s1) \<Rightarrow> (Inl e, item, s1)
      | (Inr torrent_id, s1) \<Rightarrow>
          (case (if truthy_id torrent_id then
                   set_active_files env item torrent_id container s1
                 else
                   (case add_magnet env stream s1 of
                      (Inl e, s2) \<Rightarrow> (Inl e, item, s2)
                    | (Inr torrent_id1, s2) \<Rightarrow>
                        (case select_files env torrent_id1 container (emit (Sleep 1) s2) of
                           (Inl e, s3) \<Rightarrow> (Inl e, item, s3)
                         | (Inr selected, s3) \<Rightarrow>
                             set_active_files env item torrent_id1 container s3))) of
             (Inl e, item1, s4) \<Rightarrow> (Inl e, item1, s4)
           | (Inr u, item1, s4) \<Rightarrow>
               (Inr (), item1,
                emit (Log DEBUG ''Downloaded'') (s4\<lparr>active_stream := Some stream\<rparr>))))"

text \<open>\<^verbatim>\<open>file_dict[stream.infohash]\<close>.\<close>

definition dict_getitem :: "(string \<times> 'a) list \<Rightarrow> string \<Rightarrow> py_error + 'a" where
  "dict_getitem d k = (case map_of d k of None \<Rightarrow> Inl KeyError | Some v \<Rightarrow> Inr v)"

text \<open>
  \<^verbatim>\<open>for stream in item.streams\<close> of \<^verbatim>\<open>run\<close>; \<^verbatim>\<open>return_value\<close> is \<open>False\<close> until
  the branch that downloads sets it and leaves the loop.
\<close>

fun run_loop ::
  "'w env \<Rightarrow> stream list \<Rightarrow> media_item \<Rightarrow> 'w state \<Rightarrow>
   (py_error + bool) \<times> media_item \<times> 'w state" where
  "run_loop env [] item s = (Inr False, item, s)"
| "run_loop env (stream # rest) item s =
     (if is_stream_blacklisted item stream then run_loop env rest item s
      else
        (case is_cached env item [infohash stream] True s of
           (Inl e, s1) \<Rightarrow> (Inl e, item, s1)
         | (Inr file_dict, s1) \<Rightarrow>
             if file_dict \<noteq> [] then
               (case dict_getitem file_dict (infohash stream) of
                  Inl e \<Rightarrow>
                    (Inl e, item,
                     emit (Log DEBRID ''Item has cached containers, proceeding with'') s1)
                | Inr container \<Rightarrow>
                    (case download env item (infohash stream) container
                            (emit (Log DEBRID ''Item has cached containers, proceeding with'') s1) of
                       (Inl e, item1, s2) \<Rightarrow> (Inl e, item1, s2)
                     | (Inr u, item1, s2) \<Rightarrow> (Inr True, item1, s2)))
             else
               run_loop env rest (blacklist_stream item stream)
                 (emit (Log DEBUG ''Blacklisting uncached hash'') s1)))"

definition run ::
  "'w env \<Rightarrow> media_item \<Rightarrow> 'w state \<Rightarrow> (py_error + bool) \<times> media_item \<times> 'w state" where
  "run env item s = run_loop env (item_streams item) item s"

subsection \<open>Construction and validation\<close>

record rd_settings =
  enabled :: bool
  api_key :: string
  proxy_enabled :: bool
  proxy_url :: string

text \<open>
  \<^verbatim>\<open>settings_manager.settings.downloaders\<close>: the four filesize settings, in megabytes;
  \<^verbatim>\<open>validate\<close> requires each of them to be an \<^verbatim>\<open>int\<close>.
\<close>

record download_settings =
  movie_filesize_min :: int
  movie_filesize_max :: int
  episode_filesize_min :: int
  episode_filesize_max :: int

text \<open>An upper bound is an integer or \<^verbatim>\<open>float("inf")\<close>.\<close>

datatype bound = Finite int | Infinity

text \<open>The attributes of a \<^verbatim>\<open>FileFinder\<close>, in the order of its constructor's arguments.\<close>

record file_finder =
  filename_attr :: string
  filesize_attr :: string
  min_filesize :: int
  max_filesize :: bound

text \<open>The \<^verbatim>\<open>FileFinder(...)\<close> expression of \<^verbatim>\<open>__init__\<close>.\<close>

definition init_finder :: "download_settings \<Rightarrow> file_finder" where
  "init_finder ds =
     \<lparr>filename_attr = ''filename'',
      filesize_attr = ''filesize'',
      min_filesize = episode_filesize_min ds * 1000000,
      max_filesize =
        (if episode_filesize_max ds \<noteq> - 1 then Finite (episode_filesize_max ds * 1000000)
         else Infinity)\<rparr>"

text \<open>
  What \<^verbatim>\<open>validate\<close> reads of the reply to \<^verbatim>\<open>ping(".../user")\<close>: whether
  \<^verbatim>\<open>datetime.fromisoformat\<close> accepts the expiration date (it raises otherwise; the
  date itself only feeds a log message), the account type and the premium counter.
\<close>

record user_info =
  expiration_parses :: bool
  user_type :: string
  premium :: int

definition validate :: "rd_settings \<Rightarrow> download_settings \<Rightarrow> user_info reply \<Rightarrow> bool" where
  "validate st ds ping =
     (if \<not> enabled st then False
      else if api_key st = [] then False
      else if movie_filesize_min ds < - 1 then False
      else if movie_filesize_max ds < - 1 then False
      else if episode_filesize_min ds < - 1 then False
      else if episode_filesize_max ds < - 1 then False
      else if proxy_enabled st \<and> proxy_url st = [] then False
      else
        (case ping of
           Raises \<Rightarrow> False
         | Response is_ok u \<Rightarrow>
             if is_ok then
               (if \<not> expiration_parses u then False
                else if user_type u \<noteq> ''premium'' then False
                else premium u > 0)
             else False))"

record downloader =
  finder :: file_finder
  initialized :: bool

definition init :: "rd_settings \<Rightarrow> download_settings \<Rightarrow> user_info reply \<Rightarrow> downloader" where
  "init st ds ping = \<lparr>finder = init_finder ds, initialized = validate st ds ping\<rparr>"

text \<open>
  Modelled from the spec: the filesize gate of the File Matcher
  (\<^verbatim>\<open>FileFinder.find_required_files\<close>, missing from the sources): "every candidate file
  must pass a filesize gate: size in [min, max]", with the bounds the finder was
  constructed with.
\<close>

definition filesize_gate :: "file_finder \<Rightarrow> int \<Rightarrow> bool" where
  "filesize_gate ff sz =
     (min_filesize ff \<le> sz \<and>
      (case max_filesize ff of Infinity \<Rightarrow> True | Finite m \<Rightarrow> sz \<le> m))"

text \<open>
  The gate as the specification words it: the bounds configured for the item's content
  class (the movie settings for a movie, the episode settings otherwise), a maximum of
  \<open>-1\<close> meaning unbounded; the settings are in megabytes as in \<^verbatim>\<open>__init__\<close>.
\<close>

definition content_class_gate :: "download_settings \<Rightarrow> string \<Rightarrow> int \<Rightarrow> bool" where
  "content_class_gate ds ty sz =
     (let mn = (if ty = ''movie'' then movie_filesize_min ds else episode_filesize_min ds);
          mx = (if ty = ''movie'' then movie_filesize_max ds else episode_filesize_max ds)
      in mn * 1000000 \<le> sz \<and> (mx = - 1 \<or> sz \<le> mx * 1000000))"

subsection \<open>Vocabulary for the Cache Resolver's properties\<close>

text \<open>
  The payload that \<^verbatim>\<open>is_cached\<close> iterates over, given the transport's reply: the data
  of an ok response; nothing when the call raised or the response was not ok.
\<close>

definition payload :: "availability reply \<Rightarrow> availability" where
  "payload r = (case r of Raises \<Rightarrow> [] | Response is_ok d \<Rightarrow> if is_ok then d else [])"

text \<open>
  The containers of a payload in the order the three loops of \<^verbatim>\<open>is_cached\<close> visit
  them, each tagged with its files' ids and paired with the hash it is reported under.
  An entry that is not a dict contributes none.
\<close>

definition provider_containers :: "string \<Rightarrow> provider \<Rightarrow> (string \<times> filedict list) list" where
  "provider_containers h p =
     (case p of NotDict \<Rightarrow> [] | Dict d \<Rightarrow> map (\<lambda>c. (h, tag_container c)) (concat (map snd d)))"

definition tagged_containers :: "availability \<Rightarrow> (string \<times> filedict list) list" where
  "tagged_containers data = concat (map (\<lambda>(h, p). provider_containers h p) data)"

text \<open>A container matches the item when the File Matcher's result on it is not empty.\<close>

definition matches :: "'w env \<Rightarrow> media_item \<Rightarrow> filedict list \<Rightarrow> bool" where
  "matches env item c = (find_required_files env item c \<noteq> [])"

text \<open>The containers of a list up to and including the first one that matches.\<close>

fun upto_first_match :: "'w env \<Rightarrow> media_item \<Rightarrow> filedict list list \<Rightarrow> filedict list list" where
  "upto_first_match env item [] = []"
| "upto_first_match env item (c # cs) =
     (if matches env item c then [c] else c # upto_first_match env item cs)"

text \<open>The mapping that holds the first matching container's hash and files, if any.\<close>

definition first_match ::
  "'w env \<Rightarrow> media_item \<Rightarrow> (string \<times> filedict list) list \<Rightarrow> (string \<times> filedict list) list" where
  "first_match env item cs =
     (case List.find (\<lambda>(h, c). matches env item c) cs of
        None \<Rightarrow> []
      | Some (h, c) \<Rightarrow> [(h, find_required_files env item c)])"

definition finder_events :: "media_item \<Rightarrow> filedict list list \<Rightarrow> event list" where
  "finder_events item cs = map (Find_required_files item) cs"

text \<open>The events that are calls of \<^verbatim>\<open>get\<close> or \<^verbatim>\<open>post\<close>.\<close>

fun is_request :: "event \<Rightarrow> bool" where
  "is_request (Post_addMagnet h) = True"
| "is_request (Get_instantAvailability hs) = True"
| "is_request (Get_info i) = True"
| "is_request (Post_selectFiles r ids) = True"
| "is_request (Get_torrents n) = True"
| "is_request (Log l m) = False"
| "is_request (Sleep n) = False"
| "is_request (Find_required_files item fs) = False"

text \<open>
  A payload without its entries that are not dicts, and the environment whose
  availability endpoint answers with such payloads.
\<close>

definition dict_entries :: "availability \<Rightarrow> availability" where
  "dict_entries data = filter (\<lambda>(h, p). p \<noteq> NotDict) data"

definition without_non_dict :: "'w env \<Rightarrow> 'w env" where
  "without_non_dict env =
     env\<lparr>get_instantAvailability :=
           (\<lambda>hs w. case get_instantAvailability env hs w of
                      (Raises, w') \<Rightarrow> (Raises, w')
                    | (Response is_ok d, w') \<Rightarrow> (Response is_ok (dict_entries d), w'))\<rparr>"

text \<open>The requests that change the account: adding a magnet and selecting files.\<close>

fun is_mutation :: "event \<Rightarrow> bool" where
  "is_mutation (Post_addMagnet h) = True"
| "is_mutation (Post_selectFiles r ids) = True"
| "is_mutation (Get_instantAvailability hs) = False"
| "is_mutation (Get_info i) = False"
| "is_mutation (Get_torrents n) = False"
| "is_mutation (Log l m) = False"
| "is_mutation (Sleep n) = False"
| "is_mutation (Find_required_files item fs) = False"

definition mutations :: "'w state \<Rightarrow> event list" where
  "mutations s = filter is_mutation (trace s)"

text \<open>
  The record that \<^verbatim>\<open>get_torrent_info\<close> returns for an id on an account in state \<open>w\<close>,
  and the account's state afterwards.
\<close>

definition torrent_record ::
  "'w env \<Rightarrow> string option \<Rightarrow> 'w \<Rightarrow> (py_error + torrent_info) \<times> 'w" where
  "torrent_record env request_id w =
     (case get_torrent_info env request_id \<lparr>world = w, trace = [], active_stream = None\<rparr> of
        (r, s) \<Rightarrow> (r, world s))"

text \<open>
  The binding as section 4.5 of the specification words it: the fields \<^verbatim>\<open>folder\<close>,
  \<^verbatim>\<open>alternative_folder\<close> and \<^verbatim>\<open>file\<close> are written "onto the exact target
  sub-item(s): for a Movie/Episode, one write; for a Season/Show, one write per resolved
  Episode, skipping episodes with no match". The folder names come from the torrent's
  record, the file is the first file that the matcher finds for the target.
\<close>

definition has_filename :: "filedict \<Rightarrow> bool" where
  "has_filename f = (case map_of f ''filename'' of Some (S p) \<Rightarrow> True | _ \<Rightarrow> False)"

definition filename_of :: "filedict \<Rightarrow> string" where
  "filename_of f = (case map_of f ''filename'' of Some (S p) \<Rightarrow> p | _ \<Rightarrow> [])"

definition write_binding ::
  "'w env \<Rightarrow> string \<Rightarrow> string \<Rightarrow> filedict \<Rightarrow> media_item \<Rightarrow> media_item" where
  "write_binding env fo af f item =
     item_set ''file'' (path_name env (filename_of f))
       (item_set ''alternative_folder'' af (item_set ''folder'' fo item))"

definition bind_matched ::
  "'w env \<Rightarrow> string \<Rightarrow> string \<Rightarrow> filedict list \<Rightarrow> media_item \<Rightarrow> media_item" where
  "bind_matched env fo af files item =
     (case find_required_files env item files of
        [] \<Rightarrow> item
      | f # rest \<Rightarrow> write_binding env fo af f item)"

definition binding ::
  "'w env \<Rightarrow> string \<Rightarrow> string \<Rightarrow> filedict list \<Rightarrow> media_item \<Rightarrow> media_item" where
  "binding env fo af container item =
     (if item_type item = ''movie'' \<or> item_type item = ''episode'' then
        bind_matched env fo af container item
      else if item_type item = ''show'' then
        set_seasons
          (map (\<lambda>season.
                  set_episodes
                    (map (bind_matched env fo af (find_required_files env item container))
                       (episodes season))
                    season)
             (seasons item))
          item
      else if item_type item = ''season'' then
        set_episodes
          (map (bind_matched env fo af (find_required_files env item container))
             (episodes item))
          item
      else item)"

subsection \<open>Concrete inputs\<close>

text \<open>
  Sample surroundings on which the theorems below are instantiated: the last component
  of a POSIX path (the components between slashes, empty ones and \<open>.\<close> left out), a
  matcher that returns the first file of at least 100 MB, the initial state, and a
  provider every call to which raises.
\<close>

fun components :: "string \<Rightarrow> string list" where
  "components [] = [[]]"
| "components (c # cs) =
     (if c = CHR ''/'' then [] # components cs
      else (case components cs of [] \<Rightarrow> [[c]] | x # xs \<Rightarrow> (c # x) # xs))"

definition basename :: "string \<Rightarrow> string" where
  "basename p =
     (case rev (filter (\<lambda>c. c \<noteq> [] \<and> c \<noteq> ''.'') (components p)) of
        [] \<Rightarrow> []
      | x # xs \<Rightarrow> x)"

definition big_enough :: "filedict \<Rightarrow> bool" where
  "big_enough f = (case map_of f ''filesize'' of Some (I n) \<Rightarrow> 100000000 \<le> n | _ \<Rightarrow> False)"

definition first_big_file :: "media_item \<Rightarrow> filedict list \<Rightarrow> filedict list" where
  "first_big_file item fs = take 1 (filter big_enough fs)"

definition s0 :: "unit state" where
  "s0 = \<lparr>world = (), trace = [], active_stream = None\<rparr>"

definition env_down :: "unit env" where
  "env_down =
     \<lparr>post_addMagnet = (\<lambda>h w. (Raises, w)),
      get_instantAvailability = (\<lambda>hs w. (Raises, w)),
      get_info = (\<lambda>i w. (Raises, w)),
      post_selectFiles = (\<lambda>r ids w. (Raises, w)),
      get_torrents_list = (\<lambda>n w. (Raises, w)),
      find_required_files = first_big_file,
      path_name = basename\<rparr>"

text \<open>An account that lists two torrents with the same info-hash.\<close>

definition torrent_A :: torrent where
  "torrent_A = \<lparr>t_hash = ''abc'', t_id = ''A''\<rparr>"

definition torrent_B :: torrent where
  "torrent_B = \<lparr>t_hash = ''abc'', t_id = ''B''\<rparr>"

definition env_dup :: "unit env" where
  "env_dup = env_down\<lparr>get_torrents_list := (\<lambda>n w. (Response True [torrent_A, torrent_B], w))\<rparr>"

text \<open>
  A movie with one stream, and an availability reply with an entry that is not a dict,
  a hash whose only container holds a sample, a hash whose second container holds the
  movie, and a further cached hash.
\<close>

definition movie :: media_item where
  "movie = MediaItem ''movie'' ''Movie'' [Stream ''abc'' ''Movie.2020.1080p''] [] None None None [] []"

definition sample_file :: filedict where
  "sample_file = [(''filename'', S ''sample.mkv''), (''filesize'', I 20000000)]"

definition movie_file :: filedict where
  "movie_file = [(''filename'', S ''movie.mkv''), (''filesize'', I 1200000000)]"

definition availability_abc :: availability where
  "availability_abc =
     [(''000'', NotDict),
      (''fff'', Dict [(''rd'', [[(''8'', sample_file)]])]),
      (''abc'', Dict [(''rd'', [[(''8'', sample_file)],
                              [(''7'', movie_file), (''8'', sample_file)],
                              [(''7'', movie_file)]])]),
      (''def'', Dict [(''rd'', [[(''1'', movie_file)]])])]"

definition env_cached :: "unit env" where
  "env_cached = env_down\<lparr>get_instantAvailability := (\<lambda>hs w. (Response True availability_abc, w))\<rparr>"

text \<open>
  Two torrent records with the same two files: in \<open>info_A\<close> the movie is the selected
  file, in \<open>info_B\<close> the sample is. An account answers the listing with the given
  torrents and the info request for the ids \<open>A\<close> and \<open>B\<close>; a magnet added to it
  becomes the torrent \<open>C\<close>, whose record is \<open>info_A\<close> as well.
\<close>

definition files_A :: "filedict list" where
  "files_A =
     [[(''id'', I 1), (''path'', S ''/Movie/movie.mkv''), (''bytes'', I 1200000000),
       (''selected'', I 1)],
      [(''id'', I 2), (''path'', S ''/Movie/sample.mkv''), (''bytes'', I 20000000),
       (''selected'', I 0)]]"

definition files_B :: "filedict list" where
  "files_B =
     [[(''id'', I 1), (''path'', S ''/Movie/movie.mkv''), (''bytes'', I 1200000000),
       (''selected'', I 0)],
      [(''id'', I 2), (''path'', S ''/Movie/sample.mkv''), (''bytes'', I 20000000),
       (''selected'', I 1)]]"

definition info_A :: torrent_info where
  "info_A =
     \<lparr>info_files = Some files_A,
      info_filename = Some ''Movie'',
      info_original_filename = Some ''Movie.2020.1080p''\<rparr>"

definition info_B :: torrent_info where
  "info_B =
     \<lparr>info_files = Some files_B,
      info_filename = Some ''Movie'',
      info_original_filename = Some ''Movie.2020.1080p''\<rparr>"

definition env_account :: "torrent list \<Rightarrow> unit env" where
  "env_account ts =
     env_cached
       \<lparr>get_torrents_list := (\<lambda>n w. (Response True ts, w)),
        get_info := (\<lambda>i w. if i = ''A'' \<or> i = ''C'' then (Response True info_A, w)
                            else if i = ''B'' then (Response True info_B, w)
                            else (Raises, w)),
        post_addMagnet := (\<lambda>h w. (Response True ''C'', w)),
        post_selectFiles := (\<lambda>r ids w. (Response True (), w))\<rparr>"

text \<open>
  An account without torrents on which adding a magnet and selecting files are refused
  (responses that are not ok); listing, info and availability work.
\<close>

definition env_magnet_fails :: "unit env" where
  "env_magnet_fails =
     (env_account [])
       \<lparr>post_addMagnet := (\<lambda>h w. (Response False [], w)),
        post_selectFiles := (\<lambda>r ids w. (Response False (), w))\<rparr>"

text \<open>The container that \<^verbatim>\<open>is_cached\<close> finds for the movie in the sample reply.\<close>

definition movie_container :: "filedict list" where
  "movie_container = [movie_file @ [(''id'', S ''7'')]]"

text \<open>
  Settings that leave movies unbounded and limit episodes to 100 MB.
\<close>

definition settings_movie_unbounded :: download_settings where
  "settings_movie_unbounded =
     \<lparr>movie_filesize_min = 0, movie_filesize_max = - 1,
      episode_filesize_min = 0, episode_filesize_max = 100\<rparr>"

section \<open>Properties\<close>

subsection \<open>The API methods\<close>

lemma trace_emit [simp]: "trace (emit e s) = trace s @ [e]"
  by (simp add: emit_def)

lemma world_emit [simp]: "world (emit e s) = world s"
  by (simp add: emit_def)

lemma active_stream_emit [simp]: "active_stream (emit e s) = active_stream s"
  by (simp add: emit_def)

text \<open>
  C8. \<^verbatim>\<open>get_instant_availability\<close> called with an empty hash list returns the empty
  mapping, issues no network call (the world is untouched and no request is recorded),
  and logs one message at error level.
\<close>

theorem get_instant_availability_empty:
  "get_instant_availability env [] s =
     (Inr [], s\<lparr>trace := trace s @ [Log ERROR ''No hashes found'']\<rparr>)"
  by (simp add: get_instant_availability_def emit_def)

lemma add_magnet_returns: "\<exists>v. fst (add_magnet env h s) = Inr v"
  by (auto simp: add_magnet_def request_def split: prod.splits reply.splits)

lemma add_magnet_raises:
  "fst (post_addMagnet env h (world s)) = Raises \<Longrightarrow> fst (add_magnet env h s) = Inr None"
  by (auto simp: add_magnet_def request_def split: prod.splits reply.splits)

lemma get_instant_availability_returns:
  "\<exists>v. fst (get_instant_availability env hs s) = Inr v"
  by (auto simp: get_instant_availability_def request_def split: prod.splits reply.splits)

lemma get_instant_availability_raises:
  "fst (get_instantAvailability env hs (world s)) = Raises \<Longrightarrow>
   fst (get_instant_availability env hs s) = Inr []"
  by (auto simp: get_instant_availability_def request_def split: prod.splits reply.splits)

lemma get_torrent_info_returns: "\<exists>v. fst (get_torrent_info env rid s) = Inr v"
  by (auto simp: get_torrent_info_def request_def split: prod.splits reply.splits)

lemma get_torrent_info_raises:
  "fst (get_info env (the rid) (world s)) = Raises \<Longrightarrow>
   fst (get_torrent_info env rid s) = Inr empty_info"
  by (auto simp: get_torrent_info_def request_def split: prod.splits reply.splits)

lemma select_files_returns: "\<exists>v. fst (select_files env rid c s) = Inr v"
  by (auto simp: select_files_def request_def split: prod.splits reply.splits sum.splits)

lemma select_files_raises:
  "file_ids c = Inr ids \<Longrightarrow> fst (post_selectFiles env rid ids (world s)) = Raises \<Longrightarrow>
   fst (select_files env rid c s) = Inr False"
  by (auto simp: select_files_def request_def split: prod.splits reply.splits)

lemma select_files_KeyError:
  "file_ids c = Inl e \<Longrightarrow> fst (select_files env rid c s) = Inr False"
  by (simp add: select_files_def)

lemma get_torrents_returns: "\<exists>v. fst (get_torrents env n s) = Inr v"
  by (auto simp: get_torrents_def request_def split: prod.splits reply.splits)

lemma get_torrents_raises:
  "fst (get_torrents_list env n (world s)) = Raises \<Longrightarrow> fst (get_torrents env n s) = Inr []"
  by (auto simp: get_torrents_def request_def split: prod.splits reply.splits)

text \<open>
  C10. Each of the five API methods returns a value whatever the transport does, and
  when the transport call raises the value is the method's default: \<^verbatim>\<open>None\<close> for
  \<^verbatim>\<open>add_magnet\<close>, the empty mapping for \<^verbatim>\<open>get_instant_availability\<close>,
  \<^verbatim>\<open>get_torrent_info\<close> and \<^verbatim>\<open>get_torrents\<close>, \<^verbatim>\<open>False\<close> for \<^verbatim>\<open>select_files\<close>
  (also when building the request body raises KeyError before the call).
\<close>

theorem api_methods_catch_exceptions:
  "(\<exists>v. fst (add_magnet env h s) = Inr v) \<and>
   (fst (post_addMagnet env h (world s)) = Raises \<longrightarrow> fst (add_magnet env h s) = Inr None) \<and>
   (\<exists>v. fst (get_instant_availability env hs s) = Inr v) \<and>
   (fst (get_instantAvailability env hs (world s)) = Raises \<longrightarrow>
      fst (get_instant_availability env hs s) = Inr []) \<and>
   (\<exists>v. fst (get_torrent_info env rid s) = Inr v) \<and>
   (fst (get_info env (the rid) (world s)) = Raises \<longrightarrow>
      fst (get_torrent_info env rid s) = Inr empty_info) \<and>
   (\<exists>v. fst (select_files env rid c s) = Inr v) \<and>
   (\<forall>ids. file_ids c = Inr ids \<longrightarrow> fst (post_selectFiles env rid ids (world s)) = Raises \<longrightarrow>
      fst (select_files env rid c s) = Inr False) \<and>
   (\<forall>e. file_ids c = Inl e \<longrightarrow> fst (select_files env rid c s) = Inr False) \<and>
   (\<exists>v. fst (get_torrents env n s) = Inr v) \<and>
   (fst (get_torrents_list env n (world s)) = Raises \<longrightarrow> fst (get_torrents env n s) = Inr [])"
  by (simp add: add_magnet_returns add_magnet_raises get_instant_availability_returns
        get_instant_availability_raises get_torrent_info_returns get_torrent_info_raises
        select_files_returns select_files_raises select_files_KeyError
        get_torrents_returns get_torrents_raises)

theorem api_methods_catch_exceptions_witness:
  "fst (add_magnet env_down ''abc'' s0) = Inr None \<and>
   fst (get_instant_availability env_down [''abc''] s0) = Inr [] \<and>
   fst (get_torrent_info env_down (Some ''A'') s0) = Inr empty_info \<and>
   fst (select_files env_down (Some ''A'') [[(''id'', I 7)]] s0) = Inr False \<and>
   fst (select_files env_down (Some ''A'') [[(''filename'', S ''movie.mkv'')]] s0) = Inr False \<and>
   fst (get_torrents env_down 1000 s0) = Inr []"
proof -
  have a: "fst (post_addMagnet env_down ''abc'' (world s0)) = Raises"
    and b: "fst (get_instantAvailability env_down [''abc''] (world s0)) = Raises"
    and c: "fst (get_info env_down (the (Some ''A'')) (world s0)) = Raises"
    and d: "file_ids [[(''id'', I 7)]] = Inr [I 7]"
    and e: "fst (post_selectFiles env_down (Some ''A'') [I 7] (world s0)) = Raises"
    and f: "file_ids [[(''filename'', S ''movie.mkv'')]] = Inl KeyError"
    and g: "fst (get_torrents_list env_down 1000 (world s0)) = Raises"
    by (simp_all add: env_down_def getitem_def)
  from api_methods_catch_exceptions
         [of env_down "''abc''" s0 "[''abc'']" "Some ''A''" "[[(''id'', I 7)]]" 1000]
       api_methods_catch_exceptions
         [of env_down "''abc''" s0 "[''abc'']" "Some ''A''" "[[(''filename'', S ''movie.mkv'')]]" 1000]
       a b c d e f g
  show ?thesis by blast
qed

subsection \<open>The torrent listing\<close>

lemma map_of_foldl_update:
  "map_of (foldl (\<lambda>d t. AList.update (t_hash t) t d) d0 ts) =
     map_of d0 ++ map_of (rev (map (\<lambda>t. (t_hash t, t)) ts))"
proof (induction ts arbitrary: d0)
  case Nil
  then show ?case by simp
next
  case (Cons t ts)
  show ?case
    by (simp add: Cons.IH update_conv' fun_eq_iff map_add_def split: option.splits)
qed

lemma map_of_keyed_find:
  "map_of (map (\<lambda>t. (f t, t)) xs) h = List.find (\<lambda>t. f t = h) xs"
  by (induction xs) auto

lemma map_of_torrents_dict:
  "map_of (torrents_dict ts) h = List.find (\<lambda>t. t_hash t = h) (rev ts)"
proof -
  have "rev (map (\<lambda>t. (t_hash t, t)) ts) = map (\<lambda>t. (t_hash t, t)) (rev ts)"
    by (simp add: rev_map)
  then show ?thesis
    by (simp add: torrents_dict_def map_of_foldl_update map_of_keyed_find)
qed

lemma distinct_foldl_update:
  "distinct (map fst d0) \<Longrightarrow>
   distinct (map fst (foldl (\<lambda>d t. AList.update (t_hash t) t d) d0 ts))"
  by (induction ts arbitrary: d0) (simp_all add: distinct_update)

lemma distinct_torrents_dict: "distinct (map fst (torrents_dict ts))"
  by (simp add: torrents_dict_def distinct_foldl_update)

text \<open>
  C6, as the code has it. When the listing is answered with torrents \<open>ts\<close>, the mapping
  returned by \<^verbatim>\<open>get_torrents\<close> binds every info-hash to the last torrent of \<open>ts\<close> with
  that hash (and binds no other hash): of several torrents with one info-hash, the one
  listed last is kept.
\<close>

theorem get_torrents_keeps_last:
  assumes "get_torrents_list env limit (world s) = (Response True ts, w)"
  shows "\<exists>d. fst (get_torrents env limit s) = Inr d \<and>
             (\<forall>h. map_of d h = List.find (\<lambda>t. t_hash t = h) (rev ts))"
  using assms by (cases "ts = []") (simp_all add: get_torrents_def request_def map_of_torrents_dict)

theorem get_torrents_keeps_last_witness:
  "\<exists>d. fst (get_torrents env_dup 1000 s0) = Inr d \<and> map_of d ''abc'' = Some torrent_B"
proof -
  have h: "get_torrents_list env_dup 1000 (world s0) = (Response True [torrent_A, torrent_B], ())"
    by (simp add: env_dup_def)
  from get_torrents_keeps_last [OF h]
  obtain d where "fst (get_torrents env_dup 1000 s0) = Inr d"
    and "\<forall>h. map_of d h = List.find (\<lambda>t. t_hash t = h) (rev [torrent_A, torrent_B])"
    by blast
  then show ?thesis by (auto simp: torrent_A_def torrent_B_def)
qed

text \<open>
  C6, as the claim states it, fails: with the listing \<open>[torrent_A, torrent_B]\<close>, both of
  info-hash \<open>abc\<close>, the mapping holds \<open>torrent_B\<close>, which is not the first torrent listed.
\<close>

theorem get_torrents_keeps_first_counterexample:
  "fst (get_torrents env_dup 1000 s0) = Inr [(''abc'', torrent_B)] \<and>
   fst (get_torrents_list env_dup 1000 (world s0)) = Response True [torrent_A, torrent_B] \<and>
   torrent_B \<noteq> torrent_A"
  by (simp add: get_torrents_def request_def env_dup_def torrents_dict_def
        torrent_A_def torrent_B_def)

subsection \<open>The Cache Resolver\<close>

lemma upto_first_match_append:
  "upto_first_match env item (xs @ ys) =
     (if \<exists>c \<in> set xs. matches env item c then upto_first_match env item xs
      else xs @ upto_first_match env item ys)"
  by (induction xs) auto

lemma upto_first_match_none:
  "\<forall>c \<in> set xs. \<not> matches env item c \<Longrightarrow> upto_first_match env item xs = xs"
  by (induction xs) auto

lemma find_append':
  "List.find P (xs @ ys) = (case List.find P xs of None \<Rightarrow> List.find P ys | Some x \<Rightarrow> Some x)"
  by (induction xs) auto

lemma find_None_iff': "(List.find P xs = None) = (\<forall>x \<in> set xs. \<not> P x)"
  by (induction xs) auto

lemma state_trace_same [simp]: "s\<lparr>trace := trace s\<rparr> = s"
  by simp

lemma is_cached_containers_eq:
  "is_cached_containers env item cl s =
     (map_option (find_required_files env item) (List.find (matches env item) (map tag_container cl)),
      s\<lparr>trace := trace s @ finder_events item (upto_first_match env item (map tag_container cl))\<rparr>)"
proof (induction cl arbitrary: s)
  case Nil
  then show ?case by (simp add: finder_events_def)
next
  case (Cons c cl)
  show ?case
    by (simp add: Cons.IH finder_call_def emit_def matches_def finder_events_def)
qed

lemma is_cached_provider_True:
  "is_cached_provider env item True h cls rd s =
     ((case List.find (matches env item) (map tag_container (concat cls)) of
         None \<Rightarrow> (False, rd)
       | Some c \<Rightarrow> (True, AList.update h (find_required_files env item c) rd)),
      s\<lparr>trace := trace s @ finder_events item (upto_first_match env item (map tag_container (concat cls)))\<rparr>)"
proof (induction cls arbitrary: s)
  case Nil
  then show ?case by (simp add: finder_events_def)
next
  case (Cons cl cls)
  show ?case
  proof (cases "List.find (matches env item) (map tag_container cl)")
    case None
    then have no: "\<not> (\<exists>c \<in> set (map tag_container cl). matches env item c)"
      by (simp add: find_None_iff')
    have u: "upto_first_match env item (map tag_container cl) = map tag_container cl"
      using no by (intro upto_first_match_none) simp
    show ?thesis using None no u
      by (simp add: is_cached_containers_eq Cons.IH upto_first_match_append find_append'
            finder_events_def)
  next
    case (Some c)
    then have yes: "\<exists>c \<in> set (map tag_container cl). matches env item c"
      by (metis find_None_iff' option.distinct(1))
    show ?thesis using Some yes
      by (simp add: is_cached_containers_eq upto_first_match_append find_append')
  qed
qed

lemma find_map': "List.find P (map f xs) = map_option f (List.find (\<lambda>x. P (f x)) xs)"
  by (induction xs) auto

lemma is_cached_hashes_True:
  "is_cached_hashes env item True data rd s =
     ((case List.find (\<lambda>(h, c). matches env item c) (tagged_containers data) of
         None \<Rightarrow> rd
       | Some (h, c) \<Rightarrow> AList.update h (find_required_files env item c) rd),
      s\<lparr>trace := trace s @
           finder_events item (upto_first_match env item (map snd (tagged_containers data)))\<rparr>)"
proof (induction data arbitrary: s)
  case Nil
  then show ?case by (simp add: tagged_containers_def finder_events_def)
next
  case (Cons hp data)
  obtain h p where hp: "hp = (h, p)" by (cases hp)
  show ?case
  proof (cases p)
    case NotDict
    then show ?thesis using Cons.IH
      by (simp add: hp tagged_containers_def provider_containers_def)
  next
    case (Dict d)
    let ?cs = "map tag_container (concat (map snd d))"
    have pc: "provider_containers h p = map (\<lambda>c. (h, c)) ?cs"
      by (simp add: Dict provider_containers_def comp_def)
    have tc: "tagged_containers ((h, Dict d) # data) = map (\<lambda>c. (h, c)) ?cs @ tagged_containers data"
      using pc by (simp add: Dict tagged_containers_def)
    show ?thesis
    proof (cases "List.find (matches env item) ?cs")
      case None
      then have no: "\<not> (\<exists>c \<in> set ?cs. matches env item c)"
        by (simp add: find_None_iff')
      have f0: "List.find (\<lambda>(h, c). matches env item c) (map (\<lambda>c. (h, c)) ?cs) = None"
        using None by (simp add: find_map' )
      have u: "upto_first_match env item ?cs = ?cs"
        using no by (intro upto_first_match_none) simp
      show ?thesis using None no f0 u Cons.IH
        by (simp add: hp Dict is_cached_provider_True tc find_append' upto_first_match_append
              finder_events_def comp_def)
    next
      case (Some c)
      then have yes: "\<exists>c \<in> set ?cs. matches env item c"
        by (metis find_None_iff' option.distinct(1))
      have f1: "List.find (\<lambda>(h, c). matches env item c) (map (\<lambda>c. (h, c)) ?cs) = Some (h, c)"
        using Some by (simp add: find_map')
      show ?thesis using Some yes f1
        by (simp add: hp Dict is_cached_provider_True tc find_append' upto_first_match_append
              finder_events_def comp_def)
    qed
  qed
qed


lemma get_instant_availability_eq:
  assumes "streams \<noteq> []" and "get_instantAvailability env streams (world s) = (r, w)"
  shows "get_instant_availability env streams s =
           (Inr (payload r),
            s\<lparr>world := w,
              trace := trace s @ Get_instantAvailability streams #
                 (if r = Raises then [Log ERROR ''Error getting instant availability''] else [])\<rparr>)"
  using assms
  by (cases r) (simp_all add: get_instant_availability_def request_def payload_def emit_def)

lemma first_match_length: "length (first_match env item cs) \<le> 1"
  by (simp add: first_match_def split: option.splits prod.splits)

lemma filter_request_finder_events [simp]: "filter is_request (finder_events item cs) = []"
  by (induction cs) (simp_all add: finder_events_def)

lemma tagged_containers_Nil [simp]: "tagged_containers [] = []"
  by (simp add: tagged_containers_def)

text \<open>
  C1. For a non-empty hash list, \<^verbatim>\<open>is_cached\<close> with \<^verbatim>\<open>break_on_first\<close> set returns
  a mapping and never raises; it issues exactly one request, the availability query for
  the whole hash list; the mapping has at most one entry, the hash and matched files of
  the first container (in iteration order) with a non-empty match; and the File Matcher
  is called on the containers up to and including that one and on no later container of
  this or of a later hash.
\<close>

theorem is_cached_break_on_first:
  assumes "streams \<noteq> []" and "get_instantAvailability env streams (world s) = (r, w)"
  shows "\<exists>d s'. is_cached env item streams True s = (Inr d, s') \<and>
           d = first_match env item (tagged_containers (payload r)) \<and>
           length d \<le> 1 \<and>
           world s' = w \<and>
           trace s' = trace s @ Get_instantAvailability streams #
              (if r = Raises then [Log ERROR ''Error getting instant availability''] else []) @
              finder_events item
                (upto_first_match env item (map snd (tagged_containers (payload r)))) \<and>
           filter is_request (trace s') =
             filter is_request (trace s) @ [Get_instantAvailability streams]"
proof (cases "payload r = []")
  case True
  then show ?thesis
    using assms
    by (simp add: is_cached_def get_instant_availability_eq first_match_def finder_events_def)
next
  case False
  then show ?thesis
    using assms
    by (simp add: is_cached_def get_instant_availability_eq is_cached_hashes_True
          first_match_def first_match_length split: option.splits prod.splits)
qed

lemma set_update_cases:
  "(a, b) \<in> set (AList.update k v al) \<Longrightarrow> (a, b) = (k, v) \<or> (a, b) \<in> set al"
  by (induction al) (auto split: if_splits)

lemma is_cached_containers_Some:
  assumes "is_cached_containers env item cl s = (Some fs, s')"
  shows "fs \<noteq> [] \<and> (\<exists>c \<in> set cl. fs = find_required_files env item (tag_container c))"
  using assms
proof (induction cl arbitrary: s)
  case Nil
  then show ?case by simp
next
  case (Cons c cl)
  then show ?case
    by (auto simp: finder_call_def split: if_splits)
qed

lemma is_cached_provider_entries:
  assumes "is_cached_provider env item bof h cls rd s = ((b, rd'), s')"
      and "(k, fs) \<in> set rd'"
  shows "(k, fs) \<in> set rd \<or>
         (k = h \<and> fs \<noteq> [] \<and>
          (\<exists>c \<in> set (concat cls). fs = find_required_files env item (tag_container c)))"
  using assms
proof (induction cls arbitrary: rd s)
  case Nil
  then show ?case by simp
next
  case (Cons cl cls)
  obtain res s1 where c: "is_cached_containers env item cl s = (res, s1)"
    by (cases "is_cached_containers env item cl s")
  show ?case
  proof (cases res)
    case None
    with Cons.prems c have "is_cached_provider env item bof h cls rd s1 = ((b, rd'), s')"
      by simp
    from Cons.IH [OF this Cons.prems(2)] show ?thesis by auto
  next
    case (Some files)
    from c Some have f: "files \<noteq> [] \<and> (\<exists>c \<in> set cl. files = find_required_files env item (tag_container c))"
      using is_cached_containers_Some by blast
    show ?thesis
    proof (cases bof)
      case True
      with Cons.prems c Some have "rd' = AList.update h files rd" by simp
      with Cons.prems(2) f show ?thesis by (auto dest!: set_update_cases)
    next
      case False
      with Cons.prems c Some
      have "is_cached_provider env item bof h cls (AList.update h files rd) s1 = ((b, rd'), s')"
        by simp
      from Cons.IH [OF this Cons.prems(2)] f show ?thesis
        by (auto dest!: set_update_cases)
    qed
  qed
qed

lemma is_cached_hashes_entries:
  assumes "is_cached_hashes env item bof data rd s = (rd', s')"
      and "(k, fs) \<in> set rd'"
  shows "(k, fs) \<in> set rd \<or>
         (fs \<noteq> [] \<and> (\<exists>c. (k, c) \<in> set (tagged_containers data) \<and>
                          fs = find_required_files env item c))"
  using assms
proof (induction data arbitrary: rd s)
  case Nil
  then show ?case by simp
next
  case (Cons hp data)
  obtain h p where hp: "hp = (h, p)" by (cases hp)
  have tc: "tagged_containers (hp # data) = provider_containers h p @ tagged_containers data"
    by (simp add: hp tagged_containers_def)
  show ?case
  proof (cases p)
    case NotDict
    with Cons.prems hp have "is_cached_hashes env item bof data rd s = (rd', s')" by simp
    from Cons.IH [OF this Cons.prems(2)] show ?thesis by (auto simp: tc)
  next
    case (Dict d)
    obtain b rd1 s1 where pr: "is_cached_provider env item bof h (map snd d) rd s = ((b, rd1), s1)"
      by (metis prod.exhaust)
    have step: "(k', fs') \<in> set rd1 \<Longrightarrow> (k', fs') \<in> set rd \<or>
         (fs' \<noteq> [] \<and> (\<exists>c. (k', c) \<in> set (provider_containers h p) \<and>
                          fs' = find_required_files env item c))" for k' fs'
      using is_cached_provider_entries [OF pr]
      by (fastforce simp: Dict provider_containers_def)
    show ?thesis
    proof (cases b)
      case True
      with Cons.prems hp Dict pr have "rd' = rd1" by simp
      with step Cons.prems(2) show ?thesis by (auto simp: tc)
    next
      case False
      with Cons.prems hp Dict pr have "is_cached_hashes env item bof data rd1 s1 = (rd', s')"
        by simp
      from Cons.IH [OF this Cons.prems(2)] step show ?thesis by (auto simp: tc)
    qed
  qed
qed

lemma is_cached_eq:
  "is_cached env item streams bof s =
     (case get_instant_availability env streams s of
        (Inl e, s1) \<Rightarrow> (Inl e, s1)
      | (Inr data, s1) \<Rightarrow>
          (case is_cached_hashes env item bof data [] s1 of (rd, s2) \<Rightarrow> (Inr rd, s2)))"
  by (auto simp: is_cached_def split: prod.splits sum.splits)

lemma get_instant_availability_payload:
  assumes "get_instantAvailability env streams (world s) = (r, w)"
  shows "\<exists>s1. get_instant_availability env streams s =
            (Inr (if streams = [] then [] else payload r), s1)"
  using assms
  by (cases r) (auto simp: get_instant_availability_def request_def payload_def)

lemma is_cached_entries:
  assumes "get_instantAvailability env streams (world s) = (r, w)"
  shows "\<exists>d s'. is_cached env item streams bof s = (Inr d, s') \<and>
           (\<forall>(h, fs) \<in> set d. fs \<noteq> [] \<and>
               (\<exists>c. (h, c) \<in> set (tagged_containers (payload r)) \<and>
                    fs = find_required_files env item c))"
proof -
  from get_instant_availability_payload [OF assms]
  obtain s1 where g: "get_instant_availability env streams s =
            (Inr (if streams = [] then [] else payload r), s1)" by blast
  let ?data = "if streams = [] then [] else payload r"
  obtain rd s2 where h: "is_cached_hashes env item bof ?data [] s1 = (rd, s2)"
    by (cases "is_cached_hashes env item bof ?data [] s1")
  have ic: "is_cached env item streams bof s = (Inr rd, s2)"
    using g h by (simp add: is_cached_eq)
  have "fs \<noteq> [] \<and> (\<exists>c. (k, c) \<in> set (tagged_containers (payload r)) \<and>
                    fs = find_required_files env item c)" if "(k, fs) \<in> set rd" for k fs
    using is_cached_hashes_entries [OF h that] by (auto split: if_splits)
  with ic show ?thesis by auto
qed

lemma is_cached_containers_upd:
  "is_cached_containers (env\<lparr>get_instantAvailability := f\<rparr>) item cl s =
   is_cached_containers env item cl s"
  by (induction cl arbitrary: s) (simp_all add: finder_call_def)

lemma is_cached_provider_upd:
  "is_cached_provider (env\<lparr>get_instantAvailability := f\<rparr>) item bof h cls rd s =
   is_cached_provider env item bof h cls rd s"
proof (induction cls arbitrary: rd s)
  case Nil
  show ?case by simp
next
  case (Cons cl cls)
  obtain res s1 where c: "is_cached_containers env item cl s = (res, s1)"
    by (cases "is_cached_containers env item cl s")
  show ?case
    using Cons.IH by (cases res; cases bof) (simp_all add: is_cached_containers_upd c)
qed

lemma is_cached_hashes_upd:
  "is_cached_hashes (env\<lparr>get_instantAvailability := f\<rparr>) item bof data rd s =
   is_cached_hashes env item bof data rd s"
proof (induction data arbitrary: rd s)
  case Nil
  show ?case by simp
next
  case (Cons hp data)
  obtain h p where hp: "hp = (h, p)" by (cases hp)
  show ?case
  proof (cases p)
    case NotDict
    then show ?thesis using Cons.IH by (simp add: hp)
  next
    case (Dict d)
    obtain b rd1 s1 where pr: "is_cached_provider env item bof h (map snd d) rd s = ((b, rd1), s1)"
      by (metis prod.exhaust)
    show ?thesis
      using Cons.IH by (cases b) (simp_all add: hp Dict is_cached_provider_upd pr)
  qed
qed

lemma is_cached_hashes_dict_entries:
  "is_cached_hashes env item bof (dict_entries data) rd s =
   is_cached_hashes env item bof data rd s"
proof (induction data arbitrary: rd s)
  case Nil
  then show ?case by (simp add: dict_entries_def)
next
  case (Cons hp data)
  obtain h p where hp: "hp = (h, p)" by (cases hp)
  show ?case
  proof (cases p)
    case NotDict
    then show ?thesis using Cons.IH by (simp add: hp dict_entries_def)
  next
    case (Dict d)
    have "dict_entries (hp # data) = (h, Dict d) # dict_entries data"
      by (simp add: hp Dict dict_entries_def)
    then show ?thesis using Cons.IH
      by (simp add: hp Dict split: prod.splits bool.splits)
  qed
qed


lemma get_instant_availability_without_non_dict:
  "get_instant_availability (without_non_dict env) streams s =
     (case get_instant_availability env streams s of
        (Inl e, s1) \<Rightarrow> (Inl e, s1)
      | (Inr d, s1) \<Rightarrow> (Inr (dict_entries d), s1))"
proof (cases "get_instantAvailability env streams (world s)")
  case (Pair r w)
  then show ?thesis
    by (cases r)
       (simp_all add: get_instant_availability_def request_def without_non_dict_def
          dict_entries_def)
qed


lemma is_cached_hashes_without_non_dict:
  "is_cached_hashes (without_non_dict env) item bof data rd s =
   is_cached_hashes env item bof data rd s"
  unfolding without_non_dict_def by (rule is_cached_hashes_upd)

lemma is_cached_without_non_dict:
  "is_cached (without_non_dict env) item streams bof s = is_cached env item streams bof s"
proof -
  obtain r s1 where g: "get_instant_availability env streams s = (r, s1)"
    by (cases "get_instant_availability env streams s")
  show ?thesis
  proof (cases r)
    case (Inl e)
    with g show ?thesis
      by (simp add: is_cached_eq get_instant_availability_without_non_dict)
  next
    case (Inr d)
    with g show ?thesis
      by (simp add: is_cached_eq get_instant_availability_without_non_dict
            is_cached_hashes_without_non_dict is_cached_hashes_dict_entries)
  qed
qed

lemma is_cached_hashes_empty_dict:
  "is_cached_hashes env item bof ((h, Dict []) # rest) rd s =
   is_cached_hashes env item bof rest rd s"
  by simp

lemma tagged_containers_key:
  "(h, c) \<in> set (tagged_containers data) \<Longrightarrow> \<exists>d. (h, Dict d) \<in> set data"
  by (induction data) (auto simp: tagged_containers_def provider_containers_def split: provider.splits)


text \<open>
  C9. Entries of the availability payload that are not dicts are skipped: \<^verbatim>\<open>is_cached\<close>
  returns the same mapping and leaves the same state, File Matcher calls included, as
  on the payload without them, so no File Matcher call is made for such an entry and
  the other hashes are resolved as if it were absent; and a hash all of whose entries
  are not dicts is not a key of the result.
\<close>

theorem is_cached_skips_non_dict:
  assumes "get_instantAvailability env streams (world s) = (r, w)"
  shows "is_cached (without_non_dict env) item streams bof s = is_cached env item streams bof s \<and>
         (\<exists>d s'. is_cached env item streams bof s = (Inr d, s') \<and>
            (\<forall>h. (\<forall>p. (h, p) \<in> set (payload r) \<longrightarrow> p = NotDict) \<longrightarrow> h \<notin> fst ` set d))"
proof -
  from is_cached_entries [OF assms]
  obtain d s' where ic: "is_cached env item streams bof s = (Inr d, s')"
    and en: "\<forall>(h, fs) \<in> set d. fs \<noteq> [] \<and>
               (\<exists>c. (h, c) \<in> set (tagged_containers (payload r)) \<and>
                    fs = find_required_files env item c)"
    by blast
  have "h \<notin> fst ` set d" if "\<forall>p. (h, p) \<in> set (payload r) \<longrightarrow> p = NotDict" for h
  proof
    assume "h \<in> fst ` set d"
    then obtain fs where "(h, fs) \<in> set d" by auto
    with en obtain c where "(h, c) \<in> set (tagged_containers (payload r))" by blast
    then obtain dd where "(h, Dict dd) \<in> set (payload r)" using tagged_containers_key by blast
    with that show False by blast
  qed
  with ic is_cached_without_non_dict show ?thesis by blast
qed


lemma is_cached_provider_distinct:
  "distinct (map fst rd) \<Longrightarrow>
   distinct (map fst (snd (fst (is_cached_provider env item bof h cls rd s))))"
proof (induction cls arbitrary: rd s)
  case Nil
  then show ?case by simp
next
  case (Cons cl cls)
  obtain res s1 where c: "is_cached_containers env item cl s = (res, s1)"
    by (cases "is_cached_containers env item cl s")
  show ?case
  proof (cases res)
    case None
    then show ?thesis using Cons c by simp
  next
    case (Some files)
    have "distinct (map fst (AList.update h files rd))"
      using Cons.prems by (rule distinct_update)
    then show ?thesis using Cons.IH c Some by (cases bof) simp_all
  qed
qed

lemma is_cached_hashes_distinct:
  "distinct (map fst rd) \<Longrightarrow>
   distinct (map fst (fst (is_cached_hashes env item bof data rd s)))"
proof (induction data arbitrary: rd s)
  case Nil
  then show ?case by simp
next
  case (Cons hp data)
  obtain h p where hp: "hp = (h, p)" by (cases hp)
  show ?case
  proof (cases p)
    case NotDict
    then show ?thesis using Cons by (simp add: hp)
  next
    case (Dict d)
    obtain b rd1 s1 where pr: "is_cached_provider env item bof h (map snd d) rd s = ((b, rd1), s1)"
      by (metis prod.exhaust)
    have "distinct (map fst rd1)"
      using is_cached_provider_distinct [OF Cons.prems, of env item bof h "map snd d" s] pr
      by simp
    then show ?thesis using Cons.IH pr by (cases b) (simp_all add: hp Dict)
  qed
qed

text \<open>
  C2. \<^verbatim>\<open>is_cached\<close> returns a mapping with distinct keys in which every hash is bound
  to a non-empty list, the File Matcher's result on one of the containers the payload
  reports for that hash; so a hash all of whose containers give an empty result is not
  a key of the mapping.
\<close>

theorem is_cached_no_false_positive:
  assumes "get_instantAvailability env streams (world s) = (r, w)"
  shows "\<exists>d s'. is_cached env item streams break_on_first s = (Inr d, s') \<and>
           distinct (map fst d) \<and>
           (\<forall>(h, fs) \<in> set d. fs \<noteq> [] \<and>
               (\<exists>c. (h, c) \<in> set (tagged_containers (payload r)) \<and>
                    fs = find_required_files env item c)) \<and>
           (\<forall>h. (\<forall>c. (h, c) \<in> set (tagged_containers (payload r)) \<longrightarrow>
                      find_required_files env item c = []) \<longrightarrow> h \<notin> fst ` set d)"
proof -
  from is_cached_entries [OF assms]
  obtain d s' where ic: "is_cached env item streams break_on_first s = (Inr d, s')"
    and en: "\<forall>(h, fs) \<in> set d. fs \<noteq> [] \<and>
               (\<exists>c. (h, c) \<in> set (tagged_containers (payload r)) \<and>
                    fs = find_required_files env item c)"
    by blast
  have di: "distinct (map fst d)"
  proof -
    obtain data s1 where g: "get_instant_availability env streams s = (Inr data, s1)"
      using get_instant_availability_payload [OF assms] by blast
    have "distinct (map fst (fst (is_cached_hashes env item break_on_first data [] s1)))"
      by (rule is_cached_hashes_distinct) simp
    with ic g show ?thesis
      by (simp add: is_cached_eq split: prod.splits)
  qed
  have "h \<notin> fst ` set d"
    if "\<forall>c. (h, c) \<in> set (tagged_containers (payload r)) \<longrightarrow>
             find_required_files env item c = []" for h
  proof
    assume "h \<in> fst ` set d"
    then obtain fs where "(h, fs) \<in> set d" by auto
    with en that show False by fastforce
  qed
  with ic en di show ?thesis by blast
qed

subsection \<open>The Cache Resolver on the sample reply\<close>

lemma tagged_abc:
  "tagged_containers availability_abc =
     [(''fff'', [sample_file @ [(''id'', S ''8'')]]),
      (''abc'', [sample_file @ [(''id'', S ''8'')]]),
      (''abc'', [movie_file @ [(''id'', S ''7'')], sample_file @ [(''id'', S ''8'')]]),
      (''abc'', [movie_file @ [(''id'', S ''7'')]]),
      (''def'', [movie_file @ [(''id'', S ''1'')]])]"
  by (simp add: tagged_containers_def availability_abc_def provider_containers_def
        tag_container_def sample_file_def movie_file_def)

lemma matches_sample:
  "find_required_files env_cached item [sample_file @ [(''id'', S ''8'')]] = []"
  by (simp add: env_cached_def env_down_def first_big_file_def big_enough_def sample_file_def)

lemma matches_movie:
  "find_required_files env_cached item ((movie_file @ [(''id'', i)]) # rest) =
     [movie_file @ [(''id'', i)]]"
  by (simp add: env_cached_def env_down_def first_big_file_def big_enough_def movie_file_def)

theorem is_cached_break_on_first_witness:
  "fst (is_cached env_cached movie [''000'', ''fff'', ''abc'', ''def''] True s0) =
     Inr [(''abc'', [movie_file @ [(''id'', S ''7'')]])] \<and>
   trace (snd (is_cached env_cached movie [''000'', ''fff'', ''abc'', ''def''] True s0)) =
     [Get_instantAvailability [''000'', ''fff'', ''abc'', ''def''],
      Find_required_files movie [sample_file @ [(''id'', S ''8'')]],
      Find_required_files movie [sample_file @ [(''id'', S ''8'')]],
      Find_required_files movie [movie_file @ [(''id'', S ''7'')], sample_file @ [(''id'', S ''8'')]]]"
proof -
  have a: "[''000'', ''fff'', ''abc'', ''def''] \<noteq> []" by simp
  have b: "get_instantAvailability env_cached [''000'', ''fff'', ''abc'', ''def''] (world s0) =
             (Response True availability_abc, ())"
    by (simp add: env_cached_def)
  have p: "payload (Response True availability_abc) = availability_abc"
    by (simp add: payload_def)
  from is_cached_break_on_first [OF a b, of movie]
  obtain d s' where ic: "is_cached env_cached movie [''000'', ''fff'', ''abc'', ''def''] True s0 = (Inr d, s')"
    and d: "d = first_match env_cached movie (tagged_containers (payload (Response True availability_abc)))"
    and tr: "trace s' = trace s0 @ Get_instantAvailability [''000'', ''fff'', ''abc'', ''def''] #
              (if Response True availability_abc = Raises
               then [Log ERROR ''Error getting instant availability''] else []) @
              finder_events movie
                (upto_first_match env_cached movie
                   (map snd (tagged_containers (payload (Response True availability_abc)))))"
    by blast
  have d': "d = [(''abc'', [movie_file @ [(''id'', S ''7'')]])]"
    unfolding d p tagged_abc
    by (simp add: first_match_def matches_def matches_sample matches_movie)
  have tr': "trace s' = [Get_instantAvailability [''000'', ''fff'', ''abc'', ''def''],
      Find_required_files movie [sample_file @ [(''id'', S ''8'')]],
      Find_required_files movie [sample_file @ [(''id'', S ''8'')]],
      Find_required_files movie [movie_file @ [(''id'', S ''7'')], sample_file @ [(''id'', S ''8'')]]]"
    unfolding tr p tagged_abc
    by (simp add: matches_def matches_sample matches_movie finder_events_def s0_def)
  from ic d' tr' show ?thesis by simp
qed

theorem is_cached_no_false_positive_witness:
  "\<exists>d s'. is_cached env_cached movie [''000'', ''fff'', ''abc'', ''def''] False s0 = (Inr d, s') \<and>
          ''fff'' \<notin> fst ` set d \<and> distinct (map fst d)"
proof -
  have b: "get_instantAvailability env_cached [''000'', ''fff'', ''abc'', ''def''] (world s0) =
             (Response True availability_abc, ())"
    by (simp add: env_cached_def)
  have p: "payload (Response True availability_abc) = availability_abc"
    by (simp add: payload_def)
  have e: "\<forall>c. (''fff'', c) \<in> set (tagged_containers (payload (Response True availability_abc))) \<longrightarrow>
               find_required_files env_cached movie c = []"
    by (simp add: p tagged_abc matches_sample)
  from is_cached_no_false_positive [OF b, of movie False]
  obtain d s' where ic: "is_cached env_cached movie [''000'', ''fff'', ''abc'', ''def''] False s0 = (Inr d, s')"
    and di: "distinct (map fst d)"
    and ab: "\<forall>h. (\<forall>c. (h, c) \<in> set (tagged_containers (payload (Response True availability_abc))) \<longrightarrow>
                      find_required_files env_cached movie c = []) \<longrightarrow> h \<notin> fst ` set d"
    by (elim exE conjE) (rule that)
  from ab [rule_format, OF e [rule_format]] have "''fff'' \<notin> fst ` set d" .
  with ic di show ?thesis by (intro exI conjI)
qed

theorem is_cached_skips_non_dict_witness:
  "is_cached (without_non_dict env_cached) movie [''000'', ''fff'', ''abc'', ''def''] False s0 =
     is_cached env_cached movie [''000'', ''fff'', ''abc'', ''def''] False s0 \<and>
   (\<exists>d s'. is_cached env_cached movie [''000'', ''fff'', ''abc'', ''def''] False s0 = (Inr d, s') \<and>
      ''000'' \<notin> fst ` set d)"
proof -
  have b: "get_instantAvailability env_cached [''000'', ''fff'', ''abc'', ''def''] (world s0) =
             (Response True availability_abc, ())"
    by (simp add: env_cached_def)
  have e: "\<forall>p. (''000'', p) \<in> set (payload (Response True availability_abc)) \<longrightarrow> p = NotDict"
    by (simp add: payload_def availability_abc_def)
  from is_cached_skips_non_dict [OF b, of movie False]
  obtain d s' where eq: "is_cached (without_non_dict env_cached) movie [''000'', ''fff'', ''abc'', ''def''] False s0 =
     is_cached env_cached movie [''000'', ''fff'', ''abc'', ''def''] False s0"
    and ic: "is_cached env_cached movie [''000'', ''fff'', ''abc'', ''def''] False s0 = (Inr d, s')"
    and ab: "\<forall>h. (\<forall>p. (h, p) \<in> set (payload (Response True availability_abc)) \<longrightarrow> p = NotDict) \<longrightarrow>
                 h \<notin> fst ` set d"
    by (elim exE conjE) (rule that)
  from ab [rule_format, OF e [rule_format]] have "''000'' \<notin> fst ` set d" .
  with eq ic show ?thesis by (intro exI conjI)
qed

subsection \<open>The download sequence when a remote call fails\<close>

text \<open>
  With the empty record that \<^verbatim>\<open>get_torrent_info\<close> returns on failure,
  \<^verbatim>\<open>set_active_files\<close> raises for every movie and every non-empty container:
  IndexError when the matcher finds nothing, otherwise an error of \<^verbatim>\<open>file["filename"]\<close>
  or the KeyError of \<^verbatim>\<open>info["filename"]\<close>.
\<close>

lemma set_active_files_empty_info_movie:
  assumes "item_type item = ''movie''" and "container \<noteq> []"
      and "get_torrent_info env tid s = (Inr empty_info, s1)"
  shows "\<exists>e. fst (set_active_files env item tid container s) = Inl e"
proof -
  obtain found s2 where f: "finder_call env item container s1 = (found, s2)"
    by (cases "finder_call env item container s1")
  have b: "\<exists>e. fst (bind_file env empty_info f item) = Inl e" for f
    by (simp add: bind_file_def info_getitem_def empty_info_def split: sum.splits)
  have "\<exists>e. fst (bind_first env empty_info container item s1) = Inl e"
  proof (cases found)
    case Nil
    with f show ?thesis by (simp add: bind_first_def)
  next
    case (Cons f rest)
    from b [of f] obtain e where "fst (bind_file env empty_info f item) = Inl e" by blast
    with f Cons show ?thesis by (auto simp: bind_first_def split: prod.splits)
  qed
  then obtain e where "fst (bind_first env empty_info container item s1) = Inl e" by blast
  then show ?thesis
    using assms by (auto simp: set_active_files_def if_type_def split: prod.splits sum.splits)
qed

lemma download_magnet_fails:
  "fst (download env_magnet_fails movie ''abc'' movie_container s) = Inl KeyError"
proof -
  obtain s1 where t: "torrent_is_downloaded env_magnet_fails movie ''abc'' s = (Inr None, s1)"
    by (simp add: torrent_is_downloaded_def get_torrents_def request_def env_magnet_fails_def
          env_account_def)
  have a: "add_magnet env_magnet_fails ''abc'' s1 =
             (Inr None, emit (Log ERROR ''Failed to add magnet'') (emit (Post_addMagnet ''abc'') s1))"
    by (simp add: add_magnet_def request_def env_magnet_fails_def)
  have sf: "\<exists>s3. select_files env_magnet_fails None movie_container s' = (Inr False, s3)" for s'
    by (simp add: select_files_def request_def env_magnet_fails_def movie_container_def
          movie_file_def getitem_def)
  have g: "get_torrent_info env_magnet_fails None s3 =
             (Inr empty_info, emit (Log ERROR ''No request ID found'') s3)" for s3
    by (simp add: get_torrent_info_def)
  have f: "find_required_files env_magnet_fails movie movie_container = movie_container"
    by (simp add: env_magnet_fails_def env_account_def env_cached_def env_down_def
          first_big_file_def big_enough_def movie_container_def movie_file_def)
  have s: "\<exists>item1 s4. set_active_files env_magnet_fails movie None movie_container s3 =
              (Inl KeyError, item1, s4)" for s3
    by (simp add: set_active_files_def g if_type_def bind_first_def finder_call_def f)
       (simp add: movie_def movie_container_def movie_file_def bind_file_def getitem_def
          info_getitem_def empty_info_def)
  obtain s3 where sf3: "select_files env_magnet_fails None movie_container
      (emit (Sleep (Suc 0)) (emit (Log ERROR ''Failed to add magnet'') (emit (Post_addMagnet ''abc'') s1))) =
      (Inr False, s3)"
    using sf by blast
  obtain item1 s4 where s4: "set_active_files env_magnet_fails movie None movie_container s3 =
              (Inl KeyError, item1, s4)"
    using s by blast
  show ?thesis
    by (simp add: download_def t a sf3 s4)
qed

lemma is_cached_magnet_fails:
  "\<exists>s1. is_cached env_magnet_fails movie [''abc''] True s = (Inr [(''abc'', movie_container)], s1)"
proof -
  have b: "get_instantAvailability env_magnet_fails [''abc''] (world s) =
             (Response True availability_abc, world s)"
    by (simp add: env_magnet_fails_def env_account_def env_cached_def)
  have p: "payload (Response True availability_abc) = availability_abc"
    by (simp add: payload_def)
  have n: "availability_abc \<noteq> []" by (simp add: availability_abc_def)
  have m1: "find_required_files env_magnet_fails item [sample_file @ [(''id'', S ''8'')]] = []" for item
    by (simp add: env_magnet_fails_def env_account_def env_cached_def env_down_def
          first_big_file_def big_enough_def sample_file_def)
  have m2: "find_required_files env_magnet_fails item ((movie_file @ [(''id'', i)]) # rest) =
     [movie_file @ [(''id'', i)]]" for item i rest
    by (simp add: env_magnet_fails_def env_account_def env_cached_def env_down_def
          first_big_file_def big_enough_def movie_file_def)
  show ?thesis
    using n
    by (simp add: is_cached_def get_instant_availability_eq [OF _ b] p is_cached_hashes_True
          tagged_abc matches_def m1 m2 movie_container_def)
qed

text \<open>
  C7, at a failing input. On an account where adding the magnet is refused,
  \<^verbatim>\<open>add_magnet\<close> returns \<^verbatim>\<open>None\<close>, \<^verbatim>\<open>select_files\<close> returns \<^verbatim>\<open>False\<close>,
  \<^verbatim>\<open>get_torrent_info(None)\<close> returns the empty record, and \<^verbatim>\<open>set_active_files\<close>
  raises KeyError at \<^verbatim>\<open>info["filename"]\<close>: the download sequence ends with an
  exception that nothing handles.
\<close>

theorem download_raises_KeyError:
  "fst (download env_magnet_fails movie ''abc'' movie_container s0) = Inl KeyError"
  by (rule download_magnet_fails)

text \<open>
  C4, at a failing input. The movie's only stream is cached, so \<^verbatim>\<open>run\<close> starts the
  download sequence; on the account where adding the magnet is refused the sequence
  raises KeyError, and \<^verbatim>\<open>run\<close> ends with that exception instead of returning
  \<^verbatim>\<open>True\<close>.
\<close>

theorem run_raises_KeyError:
  "fst (run env_magnet_fails movie s0) = Inl KeyError"
proof -
  obtain s1 where ic: "is_cached env_magnet_fails movie [''abc''] True s0 =
      (Inr [(''abc'', movie_container)], s1)"
    using is_cached_magnet_fails by blast
  have nb: "\<not> is_stream_blacklisted movie (Stream ''abc'' ''Movie.2020.1080p'')"
    by (simp add: is_stream_blacklisted_def movie_def)
  have st: "item_streams movie = [Stream ''abc'' ''Movie.2020.1080p'']"
    by (simp add: movie_def)
  obtain item1 s2 where d: "download env_magnet_fails movie ''abc'' movie_container
             (emit (Log DEBRID ''Item has cached containers, proceeding with'') s1) =
             (Inl KeyError, item1, s2)"
    using download_magnet_fails
      [of "emit (Log DEBRID ''Item has cached containers, proceeding with'') s1"]
    by (metis fst_conv prod.exhaust)
  show ?thesis
    by (simp add: run_def st nb ic dict_getitem_def d)
qed

subsection \<open>The filesize bounds of the matcher\<close>

lemma init_finder_ignores_movie_settings:
  "init_finder (ds\<lparr>movie_filesize_min := a, movie_filesize_max := b\<rparr>) = init_finder ds"
  by (simp add: init_finder_def)

lemma episode_gate_agrees:
  "ty \<noteq> ''movie'' \<Longrightarrow> filesize_gate (init_finder ds) sz = content_class_gate ds ty sz"
  by (auto simp: filesize_gate_def init_finder_def content_class_gate_def)

text \<open>
  C5, at a failing input. With movies unbounded and episodes limited to 100 MB, a file
  of 1.2 GB passes the gate the claim describes for a movie, and fails the gate of the
  finder that \<^verbatim>\<open>__init__\<close> constructs, whose bounds are the episode settings whatever
  the item is.
\<close>

theorem movie_gate_uses_episode_bounds:
  "content_class_gate settings_movie_unbounded ''movie'' 1200000000 \<and>
   \<not> filesize_gate (init_finder settings_movie_unbounded) 1200000000 \<and>
   max_filesize (init_finder settings_movie_unbounded) = Finite 100000000"
  by (simp add: content_class_gate_def filesize_gate_def init_finder_def
        settings_movie_unbounded_def)

subsection \<open>Reuse of a torrent of the account\<close>

lemma mutations_emit [simp]:
  "mutations (emit e s) = (if is_mutation e then mutations s @ [e] else mutations s)"
  by (simp add: mutations_def)

lemma mutations_world [simp]: "mutations (s\<lparr>world := w\<rparr>) = mutations s"
  by (simp add: mutations_def)

lemma mutations_active_stream [simp]: "mutations (s\<lparr>active_stream := a\<rparr>) = mutations s"
  by (simp add: mutations_def)

lemma mutations_request:
  "request ev ep s = (r, s') \<Longrightarrow>
   mutations s' = (if is_mutation ev then mutations s @ [ev] else mutations s)"
  by (auto simp: request_def split: prod.splits reply.splits)

lemma mutations_get_torrents:
  "get_torrents env n s = (r, s') \<Longrightarrow> mutations s' = mutations s"
  by (auto simp: get_torrents_def request_def split: prod.splits reply.splits if_splits)

lemma mutations_get_torrent_info:
  "get_torrent_info env rid s = (r, s') \<Longrightarrow> mutations s' = mutations s"
  by (auto simp: get_torrent_info_def request_def split: prod.splits reply.splits if_splits)

lemma mutations_finder_call:
  "finder_call env item fs s = (r, s') \<Longrightarrow> mutations s' = mutations s"
  by (auto simp: finder_call_def)

lemma mutations_torrent_is_downloaded:
  "torrent_is_downloaded env item h s = (r, s') \<Longrightarrow> mutations s' = mutations s"
  by (auto simp: torrent_is_downloaded_def finder_call_def
        split: prod.splits sum.splits option.splits if_splits
        dest!: mutations_get_torrents mutations_get_torrent_info)

lemma mutations_bind_first:
  "bind_first env info c item s = (r, item', s') \<Longrightarrow> mutations s' = mutations s"
  by (auto simp: bind_first_def finder_call_def split: prod.splits list.splits)

lemma mutations_bind_episode:
  "bind_episode env info fs ep s = (r, ep', s') \<Longrightarrow> mutations s' = mutations s"
  by (auto simp: bind_episode_def finder_call_def split: prod.splits list.splits)

lemma mutations_bind_episodes:
  "bind_episodes env info fs eps s = (r, eps', s') \<Longrightarrow> mutations s' = mutations s"
proof (induction eps arbitrary: s r eps' s')
  case Nil
  then show ?case by simp
next
  case (Cons ep eps)
  obtain r1 ep1 s1 where b: "bind_episode env info fs ep s = (r1, ep1, s1)"
    by (metis prod.exhaust)
  then have m: "mutations s1 = mutations s" by (rule mutations_bind_episode)
  show ?case
  proof (cases r1)
    case (Inl e)
    with Cons.prems b m show ?thesis by simp
  next
    case (Inr u)
    obtain r2 eps2 s2 where c: "bind_episodes env info fs eps s1 = (r2, eps2, s2)"
      by (metis prod.exhaust)
    from Cons.IH [OF c] Cons.prems b Inr c m show ?thesis by simp
  qed
qed

lemma mutations_bind_seasons:
  "bind_seasons env info fs ses s = (r, ses', s') \<Longrightarrow> mutations s' = mutations s"
proof (induction ses arbitrary: s r ses' s')
  case Nil
  then show ?case by simp
next
  case (Cons se ses)
  obtain r1 eps1 s1 where b: "bind_episodes env info fs (episodes se) s = (r1, eps1, s1)"
    by (metis prod.exhaust)
  then have m: "mutations s1 = mutations s" by (rule mutations_bind_episodes)
  show ?case
  proof (cases r1)
    case (Inl e)
    with Cons.prems b m show ?thesis by simp
  next
    case (Inr u)
    obtain r2 ses2 s2 where c: "bind_seasons env info fs ses s1 = (r2, ses2, s2)"
      by (metis prod.exhaust)
    from Cons.IH [OF c] Cons.prems b Inr c m show ?thesis by simp
  qed
qed

lemma mutations_bind_show:
  "bind_show env info c item s = (r, item', s') \<Longrightarrow> mutations s' = mutations s"
  by (auto simp: bind_show_def finder_call_def split: prod.splits dest!: mutations_bind_seasons)

lemma mutations_bind_season:
  "bind_season env info c item s = (r, item', s') \<Longrightarrow> mutations s' = mutations s"
  by (auto simp: bind_season_def finder_call_def split: prod.splits dest!: mutations_bind_episodes)

lemma mutations_if_type_first:
  "if_type ty (bind_first env info c) item s = (r, item', s') \<Longrightarrow> mutations s' = mutations s"
  by (auto simp: if_type_def split: if_splits dest: mutations_bind_first)

lemma mutations_if_type_show:
  "if_type ty (bind_show env info c) item s = (r, item', s') \<Longrightarrow> mutations s' = mutations s"
  by (auto simp: if_type_def split: if_splits dest: mutations_bind_show)

lemma mutations_if_type_season:
  "if_type ty (bind_season env info c) item s = (r, item', s') \<Longrightarrow> mutations s' = mutations s"
  by (auto simp: if_type_def split: if_splits dest: mutations_bind_season)

lemma mutations_by_type:
  assumes "(case if_type ''movie'' (bind_first env info c) item s of
              (Inl e, item1, s3) \<Rightarrow> (Inl e, item1, s3)
            | (Inr u, item1, s3) \<Rightarrow>
            (case if_type ''show'' (bind_show env info c) item1 s3 of
               (Inl e, item2, s4) \<Rightarrow> (Inl e, item2, s4)
             | (Inr u, item2, s4) \<Rightarrow>
            (case if_type ''season'' (bind_season env info c) item2 s4 of
               (Inl e, item3, s5) \<Rightarrow> (Inl e, item3, s5)
             | (Inr u, item3, s5) \<Rightarrow>
                 if_type ''episode'' (bind_first env info c) item3 s5))) = (r, item', s')"
  shows "mutations s' = mutations s"
proof -
  obtain r1 i1 s1 where a: "if_type ''movie'' (bind_first env info c) item s = (r1, i1, s1)"
    by (metis prod.exhaust)
  obtain r2 i2 s2 where b: "if_type ''show'' (bind_show env info c) i1 s1 = (r2, i2, s2)"
    by (metis prod.exhaust)
  obtain r3 i3 s3 where c: "if_type ''season'' (bind_season env info c) i2 s2 = (r3, i3, s3)"
    by (metis prod.exhaust)
  obtain r4 i4 s4 where d: "if_type ''episode'' (bind_first env info c) i3 s3 = (r4, i4, s4)"
    by (metis prod.exhaust)
  note m = mutations_if_type_first [OF a] mutations_if_type_show [OF b]
           mutations_if_type_season [OF c] mutations_if_type_first [OF d]
  show ?thesis
    using assms m by (cases r1; cases r2; cases r3) (simp_all add: a b c d)
qed

lemma mutations_set_active_files:
  assumes "set_active_files env item tid c s = (r, item', s')"
  shows "mutations s' = mutations s"
proof -
  obtain ri s1 where g: "get_torrent_info env tid s = (ri, s1)"
    by (cases "get_torrent_info env tid s")
  then have m1: "mutations s1 = mutations s" by (rule mutations_get_torrent_info)
  show ?thesis
  proof (cases ri)
    case (Inl e)
    with assms g m1 show ?thesis by (simp add: set_active_files_def)
  next
    case (Inr info)
    show ?thesis
    proof (cases "c = []")
      case False
      with assms g Inr have "(case if_type ''movie'' (bind_first env info c) item s1 of
              (Inl e, item1, s3) \<Rightarrow> (Inl e, item1, s3)
            | (Inr u, item1, s3) \<Rightarrow>
            (case if_type ''show'' (bind_show env info c) item1 s3 of
               (Inl e, item2, s4) \<Rightarrow> (Inl e, item2, s4)
             | (Inr u, item2, s4) \<Rightarrow>
            (case if_type ''season'' (bind_season env info c) item2 s4 of
               (Inl e, item3, s5) \<Rightarrow> (Inl e, item3, s5)
             | (Inr u, item3, s5) \<Rightarrow>
                 if_type ''episode'' (bind_first env info c) item3 s5))) = (r, item', s')"
        by (simp add: set_active_files_def)
      from mutations_by_type [OF this] m1 show ?thesis by simp
    next
      case True
      show ?thesis
      proof (cases "info_getitem (info_files info)")
        case (Inl e)
        with assms g Inr True m1 show ?thesis by (simp add: set_active_files_def)
      next
        case fs: (Inr info_fs)
        let ?c = "find_required_files env item info_fs"
        let ?s2 = "emit (Find_required_files item info_fs) s1"
        have m2: "mutations ?s2 = mutations s" using m1 by simp
        show ?thesis
        proof (cases "?c = []")
          case True
          with assms g Inr \<open>c = []\<close> fs m2 show ?thesis
            by (auto simp: set_active_files_def finder_call_def)
        next
          case False
          with assms g Inr \<open>c = []\<close> fs
          have "(case if_type ''movie'' (bind_first env info ?c) item ?s2 of
              (Inl e, item1, s3) \<Rightarrow> (Inl e, item1, s3)
            | (Inr u, item1, s3) \<Rightarrow>
            (case if_type ''show'' (bind_show env info ?c) item1 s3 of
               (Inl e, item2, s4) \<Rightarrow> (Inl e, item2, s4)
             | (Inr u, item2, s4) \<Rightarrow>
            (case if_type ''season'' (bind_season env info ?c) item2 s4 of
               (Inl e, item3, s5) \<Rightarrow> (Inl e, item3, s5)
             | (Inr u, item3, s5) \<Rightarrow>
                 if_type ''episode'' (bind_first env info ?c) item3 s5))) = (r, item', s')"
            by (simp add: set_active_files_def finder_call_def)
          from mutations_by_type [OF this] m2 show ?thesis by simp
        qed
      qed
    qed
  qed
qed

lemma item_type_item_set [simp]: "item_type (item_set k v item) = item_type item"
  by (cases item) simp

lemma item_type_set_seasons [simp]: "item_type (set_seasons ses item) = item_type item"
  by (cases item) simp

lemma item_type_set_episodes [simp]: "item_type (set_episodes eps item) = item_type item"
  by (cases item) simp

lemma item_type_write_binding [simp]:
  "item_type (write_binding env fo af f item) = item_type item"
  by (simp add: write_binding_def)

lemma fields_write_binding:
  "folder (write_binding env fo af f item) = Some fo \<and>
   alternative_folder (write_binding env fo af f item) = Some af \<and>
   file_name (write_binding env fo af f item) = Some (path_name env (filename_of f))"
  by (cases item) (simp add: write_binding_def)

lemma bind_file_writes:
  assumes "has_filename f" and "info_filename info = Some fo"
      and "info_original_filename info = Some af"
  shows "bind_file env info f item = (Inr (), write_binding env fo af f item)"
proof -
  from assms(1) obtain p where p: "map_of f ''filename'' = Some (S p)"
    by (auto simp: has_filename_def split: option.splits val.splits)
  then have "filename_of f = p" by (simp add: filename_of_def)
  with p assms(2,3) show ?thesis
    by (simp add: bind_file_def getitem_def info_getitem_def write_binding_def)
qed

lemma bind_episode_writes:
  assumes "\<forall>f \<in> set (find_required_files env episode files). has_filename f"
      and "info_filename info = Some fo" and "info_original_filename info = Some af"
  shows "bind_episode env info files episode s =
           (Inr (), bind_matched env fo af files episode,
            emit (Find_required_files episode files) s)"
proof (cases "find_required_files env episode files")
  case Nil
  then show ?thesis by (simp add: bind_episode_def finder_call_def bind_matched_def)
next
  case (Cons f rest)
  with assms(1) have "has_filename f" by simp
  then have "bind_file env info f episode = (Inr (), write_binding env fo af f episode)"
    using assms(2,3) by (rule bind_file_writes)
  with Cons show ?thesis
    by (simp add: bind_episode_def finder_call_def bind_matched_def)
qed

lemma bind_episodes_writes:
  assumes "\<forall>x. \<forall>f \<in> set (find_required_files env x files). has_filename f"
      and "info_filename info = Some fo" and "info_original_filename info = Some af"
  shows "\<exists>s'. bind_episodes env info files eps s =
           (Inr (), map (bind_matched env fo af files) eps, s')"
proof (induction eps arbitrary: s)
  case Nil
  then show ?case by simp
next
  case (Cons ep eps)
  have a: "\<forall>f \<in> set (find_required_files env ep files). has_filename f"
    using assms(1) by blast
  note b = bind_episode_writes [OF a assms(2,3)]
  from Cons.IH [of "emit (Find_required_files ep files) s"]
  obtain s' where c: "bind_episodes env info files eps (emit (Find_required_files ep files) s) =
           (Inr (), map (bind_matched env fo af files) eps, s')"
    by blast
  show ?case by (simp add: b c)
qed

lemma bind_seasons_writes:
  assumes "\<forall>x. \<forall>f \<in> set (find_required_files env x files). has_filename f"
      and "info_filename info = Some fo" and "info_original_filename info = Some af"
  shows "\<exists>s'. bind_seasons env info files ses s =
           (Inr (),
            map (\<lambda>season. set_episodes (map (bind_matched env fo af files) (episodes season)) season)
              ses, s')"
proof (induction ses arbitrary: s)
  case Nil
  then show ?case by simp
next
  case (Cons se ses)
  from bind_episodes_writes [OF assms, of "episodes se" s]
  obtain s1 where b: "bind_episodes env info files (episodes se) s =
           (Inr (), map (bind_matched env fo af files) (episodes se), s1)"
    by blast
  from Cons.IH [of s1]
  obtain s' where c: "bind_seasons env info files ses s1 =
           (Inr (),
            map (\<lambda>season. set_episodes (map (bind_matched env fo af files) (episodes season)) season)
              ses, s')"
    by blast
  show ?case by (simp add: b c)
qed

lemma bind_first_writes:
  assumes "find_required_files env item container \<noteq> []"
      and "\<forall>f \<in> set (find_required_files env item container). has_filename f"
      and "info_filename info = Some fo" and "info_original_filename info = Some af"
  shows "bind_first env info container item s =
           (Inr (), bind_matched env fo af container item,
            emit (Find_required_files item container) s)"
proof (cases "find_required_files env item container")
  case Nil
  with assms(1) show ?thesis by simp
next
  case (Cons f rest)
  with assms(2) have "has_filename f" by simp
  then have "bind_file env info f item = (Inr (), write_binding env fo af f item)"
    using assms(3,4) by (rule bind_file_writes)
  with Cons show ?thesis
    by (simp add: bind_first_def finder_call_def bind_matched_def)
qed

lemma by_type_writes:
  assumes sub: "\<forall>x c. set (find_required_files env x c) \<subseteq> set c"
      and match: "find_required_files env item container \<noteq> []"
      and names: "\<forall>f \<in> set container. has_filename f"
      and fo: "info_filename info = Some fo" and af: "info_original_filename info = Some af"
  shows "\<exists>s'. (case if_type ''movie'' (bind_first env info container) item s of
              (Inl e, item1, s3) \<Rightarrow> (Inl e, item1, s3)
            | (Inr u, item1, s3) \<Rightarrow>
            (case if_type ''show'' (bind_show env info container) item1 s3 of
               (Inl e, item2, s4) \<Rightarrow> (Inl e, item2, s4)
             | (Inr u, item2, s4) \<Rightarrow>
            (case if_type ''season'' (bind_season env info container) item2 s4 of
               (Inl e, item3, s5) \<Rightarrow> (Inl e, item3, s5)
             | (Inr u, item3, s5) \<Rightarrow>
                 if_type ''episode'' (bind_first env info container) item3 s5))) =
          (Inr (), binding env fo af container item, s')"
proof -
  let ?files = "find_required_files env item container"
  have n1: "\<forall>f \<in> set ?files. has_filename f"
    using sub names by blast
  have n2: "\<forall>x. \<forall>f \<in> set (find_required_files env x ?files). has_filename f"
    using sub n1 by blast
  note first = bind_first_writes [OF match n1 fo af]
  consider (is_movie) "item_type item = ''movie''" | (is_show) "item_type item = ''show''"
    | (is_season) "item_type item = ''season''" | (is_episode) "item_type item = ''episode''"
    | (other) "item_type item \<noteq> ''movie''" "item_type item \<noteq> ''show''"
        "item_type item \<noteq> ''season''" "item_type item \<noteq> ''episode''"
    by blast
  then show ?thesis
  proof cases
    case is_movie
    then show ?thesis
      by (simp add: if_type_def first binding_def bind_matched_def split: list.splits)
  next
    case is_show
    from bind_seasons_writes [OF n2 fo af, of "seasons item"
           "emit (Find_required_files item container) s"]
    obtain s' where "bind_seasons env info ?files (seasons item)
                       (emit (Find_required_files item container) s) =
           (Inr (),
            map (\<lambda>season. set_episodes (map (bind_matched env fo af ?files) (episodes season)) season)
              (seasons item), s')"
      by blast
    with is_show show ?thesis
      by (simp add: if_type_def bind_show_def finder_call_def binding_def)
  next
    case is_season
    from bind_episodes_writes [OF n2 fo af, of "episodes item"
           "emit (Find_required_files item container) s"]
    obtain s' where "bind_episodes env info ?files (episodes item)
                       (emit (Find_required_files item container) s) =
           (Inr (), map (bind_matched env fo af ?files) (episodes item), s')"
      by blast
    with is_season show ?thesis
      by (simp add: if_type_def bind_season_def finder_call_def binding_def)
  next
    case is_episode
    then show ?thesis
      by (simp add: if_type_def first binding_def)
  next
    case other
    then show ?thesis
      by (simp add: if_type_def binding_def)
  qed
qed

lemma get_torrent_info_record:
  assumes "torrent_record env rid (world s) = (r, w')"
  shows "\<exists>s'. get_torrent_info env rid s = (r, s') \<and> world s' = w'"
proof (cases "truthy_id rid")
  case False
  with assms show ?thesis
    by (auto simp: torrent_record_def get_torrent_info_def)
next
  case True
  obtain rp w where e: "get_info env (the rid) (world s) = (rp, w)"
    by (cases "get_info env (the rid) (world s)")
  show ?thesis
    using assms True e
    by (cases rp) (auto simp: torrent_record_def get_torrent_info_def request_def)
qed

lemma torrent_record_truthy:
  assumes "torrent_record env rid w = (Inr info, w')" and "info_files info = Some fs"
  shows "truthy_id rid"
proof (rule ccontr)
  assume "\<not> truthy_id rid"
  with assms(1) have "info = empty_info"
    by (auto simp: torrent_record_def get_torrent_info_def)
  with assms(2) show False by (simp add: empty_info_def)
qed

lemma torrent_is_downloaded_reuse:
  assumes listing: "get_torrents_list env 1000 (world s) = (Response True ts, w1)"
      and last: "List.find (\<lambda>t. t_hash t = hash_key) (rev ts) = Some torrent"
      and info: "torrent_record env (Some (t_id torrent)) w1 = (Inr info, w2)"
      and fs: "info_files info = Some fs"
      and sel: "selected_files env fs = Inr sel"
      and ok: "find_required_files env item sel \<noteq> []"
      and empty: "find_required_files env item [] = []"
  shows "\<exists>s1. torrent_is_downloaded env item hash_key s = (Inr (Some (t_id torrent)), s1) \<and>
              world s1 = w2"
proof -
  let ?s0 = "emit (Log DEBUG ''Checking if torrent is already downloaded for item'') s"
  have ne: "ts \<noteq> []" using last by auto
  have gt: "get_torrents env 1000 ?s0 =
              (Inr (torrents_dict ts), emit (Get_torrents 1000) (?s0\<lparr>world := w1\<rparr>))"
    using listing ne by (simp add: get_torrents_def request_def)
  have lk: "map_of (torrents_dict ts) hash_key = Some torrent"
    using last by (simp add: map_of_torrents_dict)
  let ?s1 = "emit (Get_torrents 1000) (?s0\<lparr>world := w1\<rparr>)"
  have "world ?s1 = w1" by simp
  with info have "torrent_record env (Some (t_id torrent)) (world ?s1) = (Inr info, w2)" by simp
  from get_torrent_info_record [OF this]
  obtain s2 where gi: "get_torrent_info env (Some (t_id torrent)) ?s1 = (Inr info, s2)"
    and w2: "world s2 = w2" by blast
  have fne: "fs \<noteq> []"
  proof
    assume "fs = []"
    with sel have "sel = []" by simp
    with ok empty show False by simp
  qed
  show ?thesis
    using ok w2
    by (simp add: torrent_is_downloaded_def gt lk gi fs info_getitem_def fne sel finder_call_def)
qed

lemma set_active_files_writes:
  assumes rec: "torrent_record env tid (world s) = (Inr info, w')"
      and fo: "info_filename info = Some fo" and af: "info_original_filename info = Some af"
      and sub: "\<forall>x c. set (find_required_files env x c) \<subseteq> set c"
      and match: "find_required_files env item container \<noteq> []"
      and names: "\<forall>f \<in> set container. has_filename f"
  shows "\<exists>s'. set_active_files env item tid container s =
           (Inr (), binding env fo af container item, s')"
proof -
  from get_torrent_info_record [OF rec]
  obtain s1 where gi: "get_torrent_info env tid s = (Inr info, s1)" by blast
  have ne: "container \<noteq> []"
  proof
    assume "container = []"
    moreover from sub have "set (find_required_files env item container) \<subseteq> set container"
      by blast
    ultimately have "find_required_files env item container = []" by simp
    with match show False by simp
  qed
  from by_type_writes [OF sub match names fo af, of s1]
  obtain s' where "(case if_type ''movie'' (bind_first env info container) item s1 of
              (Inl e, item1, s3) \<Rightarrow> (Inl e, item1, s3)
            | (Inr u, item1, s3) \<Rightarrow>
            (case if_type ''show'' (bind_show env info container) item1 s3 of
               (Inl e, item2, s4) \<Rightarrow> (Inl e, item2, s4)
             | (Inr u, item2, s4) \<Rightarrow>
            (case if_type ''season'' (bind_season env info container) item2 s4 of
               (Inl e, item3, s5) \<Rightarrow> (Inl e, item3, s5)
             | (Inr u, item3, s5) \<Rightarrow>
                 if_type ''episode'' (bind_first env info container) item3 s5))) =
          (Inr (), binding env fo af container item, s')"
    by blast
  with gi ne show ?thesis by (simp add: set_active_files_def)
qed

lemma binding_single_fields:
  assumes "item_type item = ''movie'' \<or> item_type item = ''episode''"
      and "find_required_files env item container = f # rest"
  shows "folder (binding env fo af container item) = Some fo \<and>
         alternative_folder (binding env fo af container item) = Some af \<and>
         file_name (binding env fo af container item) = Some (path_name env (filename_of f))"
  using assms by (simp add: binding_def bind_matched_def fields_write_binding)

text \<open>
  C3, as the code has it. Let the last torrent of the listing with the chosen info-hash
  have a record, as \<^verbatim>\<open>get_torrent_info\<close> returns it, whose selected-flagged files
  satisfy the File Matcher for the item (the matcher finding nothing in an empty list).
  Then \<^verbatim>\<open>torrent_is_downloaded\<close> returns that torrent's id, and \<^verbatim>\<open>download\<close> issues
  no add-magnet and no select-files request. And \<^verbatim>\<open>download\<close> performs the binding
  whenever the second \<^verbatim>\<open>get_torrent_info\<close> call, the one of \<^verbatim>\<open>set_active_files\<close>,
  returns a record with \<^verbatim>\<open>filename\<close> and \<^verbatim>\<open>original_filename\<close> and the container
  is a match for the item whose files have filenames (the matcher returning some of its
  candidates): it returns, the item is the item bound as section 4.5 says, folder,
  alternative folder and file written on a movie or episode and on each episode with a
  match of a show or season, and the active stream is the chosen hash.
\<close>

theorem download_reuses_torrent:
  assumes "get_torrents_list env 1000 (world s) = (Response True ts, w1)"
      and "List.find (\<lambda>t. t_hash t = hash_key) (rev ts) = Some torrent"
      and "torrent_record env (Some (t_id torrent)) w1 = (Inr info, w2)"
      and "info_files info = Some fs"
      and "selected_files env fs = Inr sel"
      and "find_required_files env item sel \<noteq> []"
      and "find_required_files env item [] = []"
  shows "fst (torrent_is_downloaded env item hash_key s) = Inr (Some (t_id torrent)) \<and>
         mutations (snd (snd (download env item hash_key container s))) = mutations s \<and>
         (\<forall>info2 w3 fo af.
            torrent_record env (Some (t_id torrent)) w2 = (Inr info2, w3) \<and>
            info_filename info2 = Some fo \<and> info_original_filename info2 = Some af \<and>
            (\<forall>x c. set (find_required_files env x c) \<subseteq> set c) \<and>
            find_required_files env item container \<noteq> [] \<and>
            (\<forall>f \<in> set container. has_filename f) \<longrightarrow>
            fst (download env item hash_key container s) = Inr () \<and>
            fst (snd (download env item hash_key container s)) =
              binding env fo af container item \<and>
            active_stream (snd (snd (download env item hash_key container s))) = Some hash_key \<and>
            (item_type item = ''movie'' \<or> item_type item = ''episode'' \<longrightarrow>
               folder (fst (snd (download env item hash_key container s))) = Some fo \<and>
               alternative_folder (fst (snd (download env item hash_key container s))) = Some af \<and>
               file_name (fst (snd (download env item hash_key container s))) =
                 Some (path_name env
                         (filename_of (hd (find_required_files env item container))))))"
proof -
  from torrent_is_downloaded_reuse [OF assms]
  obtain s1 where t: "torrent_is_downloaded env item hash_key s = (Inr (Some (t_id torrent)), s1)"
    and w: "world s1 = w2"
    by blast
  have tr: "truthy_id (Some (t_id torrent))"
    using assms(3,4) by (rule torrent_record_truthy)
  from t have m1: "mutations s1 = mutations s" by (rule mutations_torrent_is_downloaded)
  obtain r item1 s2 where sa: "set_active_files env item (Some (t_id torrent)) container s1 = (r, item1, s2)"
    by (metis prod.exhaust)
  then have m2: "mutations s2 = mutations s1" by (rule mutations_set_active_files)
  have d: "download env item hash_key container s =
              (case set_active_files env item (Some (t_id torrent)) container s1 of
                 (Inl e, item1, s2) \<Rightarrow> (Inl e, item1, s2)
               | (Inr u, item1, s2) \<Rightarrow>
                   (Inr (), item1,
                    emit (Log DEBUG ''Downloaded'') (s2\<lparr>active_stream := Some hash_key\<rparr>)))"
    using tr by (simp add: download_def t del: truthy_id.simps)
  have mu: "mutations (snd (snd (download env item hash_key container s))) = mutations s"
    using m1 m2 by (cases r) (simp_all add: d sa)
  have bi: "fst (download env item hash_key container s) = Inr () \<and>
            fst (snd (download env item hash_key container s)) =
              binding env fo af container item \<and>
            active_stream (snd (snd (download env item hash_key container s))) = Some hash_key \<and>
            (item_type item = ''movie'' \<or> item_type item = ''episode'' \<longrightarrow>
               folder (fst (snd (download env item hash_key container s))) = Some fo \<and>
               alternative_folder (fst (snd (download env item hash_key container s))) = Some af \<and>
               file_name (fst (snd (download env item hash_key container s))) =
                 Some (path_name env
                         (filename_of (hd (find_required_files env item container)))))"
    if rec: "torrent_record env (Some (t_id torrent)) w2 = (Inr info2, w3)"
      and fo: "info_filename info2 = Some fo" and af: "info_original_filename info2 = Some af"
      and sub: "\<forall>x c. set (find_required_files env x c) \<subseteq> set c"
      and match: "find_required_files env item container \<noteq> []"
      and names: "\<forall>f \<in> set container. has_filename f"
    for info2 w3 fo af
  proof -
    from rec w have "torrent_record env (Some (t_id torrent)) (world s1) = (Inr info2, w3)"
      by simp
    from set_active_files_writes [OF this fo af sub match names]
    obtain s' where sw: "set_active_files env item (Some (t_id torrent)) container s1 =
           (Inr (), binding env fo af container item, s')"
      by blast
    obtain f rest where fr: "find_required_files env item container = f # rest"
      using match by (cases "find_required_files env item container") auto
    have fl: "item_type item = ''movie'' \<or> item_type item = ''episode'' \<longrightarrow>
         folder (binding env fo af container item) = Some fo \<and>
         alternative_folder (binding env fo af container item) = Some af \<and>
         file_name (binding env fo af container item) = Some (path_name env (filename_of f))"
      using binding_single_fields [OF _ fr] by blast
    show ?thesis
      using fl by (simp add: d sw fr)
  qed
  have tid: "fst (torrent_is_downloaded env item hash_key s) = Inr (Some (t_id torrent))"
    by (simp add: t)
  from bi have every: "\<forall>info2 w3 fo af.
            torrent_record env (Some (t_id torrent)) w2 = (Inr info2, w3) \<and>
            info_filename info2 = Some fo \<and> info_original_filename info2 = Some af \<and>
            (\<forall>x c. set (find_required_files env x c) \<subseteq> set c) \<and>
            find_required_files env item container \<noteq> [] \<and>
            (\<forall>f \<in> set container. has_filename f) \<longrightarrow>
            fst (download env item hash_key container s) = Inr () \<and>
            fst (snd (download env item hash_key container s)) =
              binding env fo af container item \<and>
            active_stream (snd (snd (download env item hash_key container s))) = Some hash_key \<and>
            (item_type item = ''movie'' \<or> item_type item = ''episode'' \<longrightarrow>
               folder (fst (snd (download env item hash_key container s))) = Some fo \<and>
               alternative_folder (fst (snd (download env item hash_key container s))) = Some af \<and>
               file_name (fst (snd (download env item hash_key container s))) =
                 Some (path_name env
                         (filename_of (hd (find_required_files env item container)))))"
    by blast
  show ?thesis
    by (intro conjI) (rule tid, rule mu, rule every)
qed

lemma selected_info_A:
  "selected_files (env_account ts) files_A =
     Inr [[(''filename'', S ''movie.mkv''), (''filesize'', I 1200000000), (''id'', I 1)]]"
  by (simp add: files_A_def getitem_def env_account_def env_cached_def env_down_def basename_def)

lemma selected_info_B:
  "selected_files (env_account ts) files_B =
     Inr [[(''filename'', S ''sample.mkv''), (''filesize'', I 20000000), (''id'', I 2)]]"
  by (simp add: files_B_def getitem_def env_account_def env_cached_def env_down_def basename_def)

lemma finder_account:
  "find_required_files (env_account ts) = first_big_file"
  by (simp add: env_account_def env_cached_def env_down_def)

lemma first_big_file_movie:
  "first_big_file item [[(''filename'', S ''movie.mkv''), (''filesize'', I 1200000000), (''id'', i)]] =
     [[(''filename'', S ''movie.mkv''), (''filesize'', I 1200000000), (''id'', i)]]"
  by (simp add: first_big_file_def big_enough_def)

lemma first_big_file_sample:
  "first_big_file item [[(''filename'', S ''sample.mkv''), (''filesize'', I 20000000), (''id'', i)]] = []"
  by (simp add: first_big_file_def big_enough_def)

lemma first_big_file_subset: "set (first_big_file x c) \<subseteq> set c"
proof -
  have "set (take 1 (filter big_enough c)) \<subseteq> set (filter big_enough c)"
    by (rule set_take_subset)
  then show ?thesis by (auto simp: first_big_file_def)
qed

lemma torrent_record_A:
  "torrent_record (env_account ts) (Some (t_id torrent_A)) () = (Inr info_A, ())"
  by (simp add: torrent_record_def get_torrent_info_def request_def env_account_def torrent_A_def)

lemma binding_movie_container:
  "binding (env_account ts) ''Movie'' ''Movie.2020.1080p'' movie_container movie =
     MediaItem ''movie'' ''Movie'' [Stream ''abc'' ''Movie.2020.1080p''] []
       (Some ''Movie'') (Some ''Movie.2020.1080p'') (Some ''movie.mkv'') [] []"
proof -
  have f: "find_required_files (env_account ts) movie movie_container = movie_container"
    by (simp add: finder_account movie_container_def movie_file_def first_big_file_movie)
  have n: "filename_of (movie_file @ [(''id'', S ''7'')]) = ''movie.mkv''"
    by (simp add: filename_of_def movie_file_def)
  have p: "path_name (env_account ts) ''movie.mkv'' = ''movie.mkv''"
    by (simp add: env_account_def env_cached_def env_down_def basename_def)
  show ?thesis
    by (simp add: binding_def bind_matched_def f)
       (simp add: movie_def movie_container_def write_binding_def n p)
qed

theorem download_reuses_torrent_witness:
  "fst (torrent_is_downloaded (env_account [torrent_A]) movie ''abc'' s0) = Inr (Some ''A'') \<and>
   mutations (snd (snd (download (env_account [torrent_A]) movie ''abc'' movie_container s0))) = [] \<and>
   fst (download (env_account [torrent_A]) movie ''abc'' movie_container s0) = Inr () \<and>
   fst (snd (download (env_account [torrent_A]) movie ''abc'' movie_container s0)) =
     MediaItem ''movie'' ''Movie'' [Stream ''abc'' ''Movie.2020.1080p''] []
       (Some ''Movie'') (Some ''Movie.2020.1080p'') (Some ''movie.mkv'') [] [] \<and>
   active_stream (snd (snd (download (env_account [torrent_A]) movie ''abc'' movie_container s0))) =
     Some ''abc''"
proof -
  let ?env = "env_account [torrent_A]"
  have a: "get_torrents_list ?env 1000 (world s0) = (Response True [torrent_A], ())"
    by (simp add: env_account_def)
  have b: "List.find (\<lambda>t. t_hash t = ''abc'') (rev [torrent_A]) = Some torrent_A"
    by (simp add: torrent_A_def)
  have d: "info_files info_A = Some files_A" by (simp add: info_A_def)
  have f: "find_required_files ?env movie
             [[(''filename'', S ''movie.mkv''), (''filesize'', I 1200000000), (''id'', I 1)]] \<noteq> []"
    by (simp add: finder_account first_big_file_movie)
  have g: "find_required_files ?env movie [] = []"
    by (simp add: finder_account first_big_file_def)
  note reuse = download_reuses_torrent
               [OF a b torrent_record_A d selected_info_A f g, of movie_container]
  have i: "t_id torrent_A = ''A''" by (simp add: torrent_A_def)
  have m: "mutations s0 = []" by (simp add: mutations_def s0_def)
  have fo: "info_filename info_A = Some ''Movie''"
    and af: "info_original_filename info_A = Some ''Movie.2020.1080p''"
    by (simp_all add: info_A_def)
  have sub: "\<forall>x c. set (find_required_files ?env x c) \<subseteq> set c"
    by (simp add: finder_account first_big_file_subset)
  have match: "find_required_files ?env movie movie_container \<noteq> []"
    by (simp add: finder_account movie_container_def movie_file_def first_big_file_movie)
  have names: "\<forall>f \<in> set movie_container. has_filename f"
    by (simp add: movie_container_def movie_file_def has_filename_def)
  from reuse have t1: "fst (torrent_is_downloaded ?env movie ''abc'' s0) = Inr (Some ''A'')"
    by (simp add: i)
  from reuse have t2: "mutations (snd (snd (download ?env movie ''abc'' movie_container s0))) = []"
    by (simp add: m)
  from reuse [THEN conjunct2, THEN conjunct2, rule_format,
        of info_A "()" "''Movie''" "''Movie.2020.1080p''"]
       torrent_record_A fo af sub match names
  have t3: "fst (download ?env movie ''abc'' movie_container s0) = Inr () \<and>
     fst (snd (download ?env movie ''abc'' movie_container s0)) =
       binding ?env ''Movie'' ''Movie.2020.1080p'' movie_container movie \<and>
     active_stream (snd (snd (download ?env movie ''abc'' movie_container s0))) = Some ''abc''"
    by simp
  from t1 t2 t3 show ?thesis by (simp add: binding_movie_container)
qed

lemma torrent_is_downloaded_dup:
  "torrent_is_downloaded (env_account [torrent_A, torrent_B]) movie ''abc'' s =
     (Inr None,
      s\<lparr>trace := trace s @ [Log DEBUG ''Checking if torrent is already downloaded for item'',
                             Get_torrents 1000, Get_info ''B'',
                             Find_required_files movie
                               [[(''filename'', S ''sample.mkv''), (''filesize'', I 20000000),
                                 (''id'', I 2)]]]\<rparr>)"
proof -
  let ?env = "env_account [torrent_A, torrent_B]"
  let ?s0 = "emit (Log DEBUG ''Checking if torrent is already downloaded for item'') s"
  have gt: "get_torrents ?env 1000 ?s0 =
              (Inr [(''abc'', torrent_B)], emit (Get_torrents 1000) ?s0)"
    by (simp add: get_torrents_def request_def env_account_def torrents_dict_def
          torrent_A_def torrent_B_def)
  have gi: "get_torrent_info ?env (Some (t_id torrent_B)) s' =
              (Inr info_B, emit (Get_info ''B'') s')" for s'
    by (simp add: get_torrent_info_def request_def env_account_def torrent_B_def)
  have fs: "info_files info_B = Some files_B" "files_B \<noteq> []"
    by (simp_all add: info_B_def files_B_def)
  show ?thesis
    by (simp add: torrent_is_downloaded_def gt gi info_getitem_def fs selected_info_B
          finder_call_def finder_account first_big_file_sample)
qed

text \<open>
  C3, as the claim states it, fails: the account lists \<open>torrent_A\<close> and then \<open>torrent_B\<close>
  under the info-hash \<open>abc\<close>; the selected file of \<open>torrent_A\<close> satisfies the matcher for
  the movie, but \<^verbatim>\<open>torrent_is_downloaded\<close> examines \<open>torrent_B\<close> only and returns
  \<^verbatim>\<open>None\<close>, and \<^verbatim>\<open>download\<close> adds the magnet and selects files.
\<close>

theorem download_reuses_any_torrent_counterexample:
  "fst (get_torrents_list (env_account [torrent_A, torrent_B]) 1000 ()) =
     Response True [torrent_A, torrent_B] \<and>
   t_hash torrent_A = ''abc'' \<and>
   fst (get_info (env_account [torrent_A, torrent_B]) (t_id torrent_A) ()) = Response True info_A \<and>
   selected_files (env_account [torrent_A, torrent_B]) files_A =
     Inr [[(''filename'', S ''movie.mkv''), (''filesize'', I 1200000000), (''id'', I 1)]] \<and>
   find_required_files (env_account [torrent_A, torrent_B]) movie
     [[(''filename'', S ''movie.mkv''), (''filesize'', I 1200000000), (''id'', I 1)]] \<noteq> [] \<and>
   fst (torrent_is_downloaded (env_account [torrent_A, torrent_B]) movie ''abc'' s0) = Inr None \<and>
   mutations (snd (snd (download (env_account [torrent_A, torrent_B]) movie ''abc''
                          movie_container s0))) =
     [Post_addMagnet ''abc'', Post_selectFiles (Some ''C'') [S ''7'']]"
proof -
  let ?env = "env_account [torrent_A, torrent_B]"
  obtain s1 where t: "torrent_is_downloaded ?env movie ''abc'' s0 = (Inr None, s1)"
    and m1: "mutations s1 = []"
    by (simp add: torrent_is_downloaded_dup mutations_def s0_def)
  have am: "add_magnet ?env ''abc'' s1 = (Inr (Some ''C''), emit (Post_addMagnet ''abc'') s1)"
    by (simp add: add_magnet_def request_def env_account_def)
  have sf: "select_files ?env (Some ''C'') movie_container s' =
              (Inr True, emit (Post_selectFiles (Some ''C'') [S ''7'']) s')" for s'
    by (simp add: select_files_def request_def env_account_def movie_container_def
          movie_file_def getitem_def)
  obtain r item1 s4 where sa: "set_active_files ?env movie (Some ''C'') movie_container
          (emit (Post_selectFiles (Some ''C'') [S ''7''])
             (emit (Sleep (Suc 0)) (emit (Post_addMagnet ''abc'') s1))) = (r, item1, s4)"
    by (metis prod.exhaust)
  from mutations_set_active_files [OF sa] m1
  have m4: "mutations s4 = [Post_addMagnet ''abc'', Post_selectFiles (Some ''C'') [S ''7'']]"
    by simp
  have "mutations (snd (snd (download ?env movie ''abc'' movie_container s0))) =
     [Post_addMagnet ''abc'', Post_selectFiles (Some ''C'') [S ''7'']]"
    using m4 by (cases r) (simp_all add: download_def t am sf sa)
  then show ?thesis
    by (simp add: t selected_info_A finder_account first_big_file_movie)
       (simp add: env_account_def torrent_A_def)
qed

subsection \<open>The loop of \<^verbatim>\<open>run\<close>\<close>

text \<open>
  What the loop does apart from the download sequence: a blacklisted stream is passed
  over with no effect at all; a stream without a cached match is blacklisted and the
  loop goes on; at the first stream with a cached match for its hash the outcome of
  \<^verbatim>\<open>run\<close> is the outcome of \<^verbatim>\<open>download\<close>, whatever streams follow. After a run
  that returned \<^verbatim>\<open>False\<close> every stream of the item is blacklisted, and a further run
  issues no request.
\<close>

lemma blacklisted_streams_blacklist_stream [simp]:
  "blacklisted_streams (blacklist_stream item st) = blacklisted_streams item @ [st]"
  by (cases item) simp

lemma item_streams_blacklist_stream [simp]:
  "item_streams (blacklist_stream item st) = item_streams item"
  by (cases item) simp

lemma run_loop_skips_blacklisted:
  "is_stream_blacklisted item st \<Longrightarrow> run_loop env (st # rest) item s = run_loop env rest item s"
  by simp

lemma run_loop_all_blacklisted:
  "set sts \<subseteq> set (blacklisted_streams item) \<Longrightarrow> run_loop env sts item s = (Inr False, item, s)"
  by (induction sts) (simp_all add: is_stream_blacklisted_def)

lemma run_loop_False:
  assumes "run_loop env sts item s = (Inr False, item', s')"
  shows "set sts \<subseteq> set (blacklisted_streams item') \<and>
         set (blacklisted_streams item) \<subseteq> set (blacklisted_streams item') \<and>
         item_streams item' = item_streams item"
  using assms
proof (induction sts arbitrary: item s)
  case Nil
  then show ?case by simp
next
  case (Cons st sts)
  show ?case
  proof (cases "is_stream_blacklisted item st")
    case True
    with Cons.prems have "run_loop env sts item s = (Inr False, item', s')" by simp
    from Cons.IH [OF this] True show ?thesis by (auto simp: is_stream_blacklisted_def)
  next
    case False
    obtain r s1 where ic: "is_cached env item [infohash st] True s = (r, s1)"
      by (cases "is_cached env item [infohash st] True s")
    show ?thesis
    proof (cases r)
      case (Inl e)
      with Cons.prems False ic show ?thesis by simp
    next
      case (Inr file_dict)
      show ?thesis
      proof (cases "file_dict = []")
        case True
        with Cons.prems False ic Inr
        have "run_loop env sts (blacklist_stream item st)
                (emit (Log DEBUG ''Blacklisting uncached hash'') s1) = (Inr False, item', s')"
          by simp
        from Cons.IH [OF this] show ?thesis by auto
      next
        case ne: False
        with Cons.prems False ic Inr show ?thesis
          by (auto split: sum.splits prod.splits)
      qed
    qed
  qed
qed

lemma run_again_queries_nothing:
  assumes "run env item s = (Inr False, item', s')"
  shows "run env item' s'' = (Inr False, item', s'')"
proof -
  from assms have "run_loop env (item_streams item) item s = (Inr False, item', s')"
    by (simp add: run_def)
  from run_loop_False [OF this]
  have "set (item_streams item') \<subseteq> set (blacklisted_streams item')" by simp
  then show ?thesis by (simp add: run_def run_loop_all_blacklisted)
qed

lemma run_loop_first_match:
  assumes "\<not> is_stream_blacklisted item st"
      and "is_cached env item [infohash st] True s = (Inr file_dict, s1)"
      and "map_of file_dict (infohash st) = Some container"
  shows "run_loop env (st # rest) item s =
           (case download env item (infohash st) container
                   (emit (Log DEBRID ''Item has cached containers, proceeding with'') s1) of
              (Inl e, item1, s2) \<Rightarrow> (Inl e, item1, s2)
            | (Inr u, item1, s2) \<Rightarrow> (Inr True, item1, s2))"
proof -
  from assms(3) have "file_dict \<noteq> []" by auto
  with assms show ?thesis by (simp add: dict_getitem_def)
qed

lemma run_loop_no_match:
  assumes "\<not> is_stream_blacklisted item st"
      and "is_cached env item [infohash st] True s = (Inr [], s1)"
  shows "run_loop env (st # rest) item s =
           run_loop env rest (blacklist_stream item st)
             (emit (Log DEBUG ''Blacklisting uncached hash'') s1)"
  using assms by simp

lemma torrent_is_downloaded_info_fails:
  assumes "get_torrents_list env 1000 (world s) = (Response True ts, w1)"
      and "List.find (\<lambda>t. t_hash t = hash_key) (rev ts) = Some torrent"
      and "fst (get_info env (t_id torrent) w1) = Raises"
  shows "fst (torrent_is_downloaded env item hash_key s) = Inl KeyError"
proof -
  let ?s0 = "emit (Log DEBUG ''Checking if torrent is already downloaded for item'') s"
  have ne: "ts \<noteq> []" using assms(2) by auto
  have gt: "get_torrents env 1000 ?s0 =
              (Inr (torrents_dict ts), emit (Get_torrents 1000) (?s0\<lparr>world := w1\<rparr>))"
    using assms(1) ne by (simp add: get_torrents_def request_def)
  have lk: "map_of (torrents_dict ts) hash_key = Some torrent"
    using assms(2) by (simp add: map_of_torrents_dict)
  have gi: "fst (get_torrent_info env (Some (t_id torrent))
                   (emit (Get_torrents 1000) (?s0\<lparr>world := w1\<rparr>))) = Inr empty_info"
    using assms(3)
    by (auto simp: get_torrent_info_def request_def split: prod.splits reply.splits)
  then obtain s2 where "get_torrent_info env (Some (t_id torrent))
                   (emit (Get_torrents 1000) (?s0\<lparr>world := w1\<rparr>)) = (Inr empty_info, s2)"
    by (metis fst_conv prod.exhaust)
  then show ?thesis
    by (simp add: torrent_is_downloaded_def gt lk info_getitem_def empty_info_def)
qed

end
